theory Spec2Isabelle
  imports Main "HOL-Library.Multiset"
begin

section \<open>Arrays, as numpy holds them\<close>

text \<open>
  An ndarray is a shape and a row-major buffer. Weight values are only moved, never
  computed with, so the element type is a parameter: masks are \<open>bool ndarray\<close>,
  weights are \<open>int ndarray\<close> (any type with equality would do).
\<close>

datatype 'a ndarray = NDArray (shape: "nat list") (data: "'a list")

type_synonym mask = "bool ndarray"
type_synonym weight = "int ndarray"

text \<open>
  Every raise of \<open>prune.py\<close> and every failure of a numpy or list operation it calls is
  a constructor. The source raises \<open>ValueError\<close> at most sites; the constructors keep
  the sites apart under the names the specification gives them.
\<close>

datatype error =
    OperationNotFound          \<comment> \<open>'layer is not a valid Layer in model.'\<close>
  | MultiInputUnsupported      \<comment> \<open>'Cannot insert new layer at node with multiple inbound layers.'\<close>
  | DanglingOperation          \<comment> \<open>\<open>zip(*[])\<close> unpacked into two names: nothing inbound to rebuild\<close>
  | UnsupportedOperationKind   \<comment> \<open>'... layers are currently unsupported.'\<close>
  | ChannelIndexOutOfRange     \<comment> \<open>'Channels_index value(s) out of range. ...'\<close>
  | MissingChannelDimension    \<comment> \<open>'The layer must have either a "units" or "filters" property ...'\<close>
  | InputLayerMasked           \<comment> \<open>RuntimeError 'This should never get here!'\<close>
  | IndexError                 \<comment> \<open>a list or array index out of range\<close>
  | NumpyError                 \<comment> \<open>any other failure inside numpy (axis, shape, reshape)\<close>
  | AttributeError             \<comment> \<open>\<open>output_shape\<close> of a layer that was never called\<close>
  | TypeError                  \<comment> \<open>a tuple indexed with a list of slices\<close>
  | KeyError                   \<comment> \<open>'The node is not contained in the model.'\<close>
  | NoSuchLayer                \<comment> \<open>\<open>get_layer\<close> finds no layer of that name\<close>
  | KerasError                 \<comment> \<open>Keras refuses the call of a layer\<close>
  | RecursionLimit             \<comment> \<open>RecursionError: the interpreter's recursion limit is reached\<close>

definition np_ones :: "nat list \<Rightarrow> mask" where
  "np_ones sh = NDArray sh (replicate (prod_list sh) True)"

text \<open>Python's index normalisation on an axis of length \<open>d\<close>: negative indices count from the end.\<close>

definition norm_index :: "nat \<Rightarrow> int \<Rightarrow> nat option" where
  "norm_index d i =
     (if 0 \<le> i \<and> i < int d then Some (nat i)
      else if - int d \<le> i \<and> i < 0 then Some (nat (i + int d))
      else None)"

definition norm_indices :: "nat \<Rightarrow> int list \<Rightarrow> nat list option" where
  "norm_indices d idx = those (map (norm_index d) idx)"

text \<open>
  \<open>np.delete(w, obj, axis=-1)\<close> with a list of integers: the positions named by the list
  are dropped from the last axis, each once however often it is named.
\<close>

definition np_delete :: "'a ndarray \<Rightarrow> int list \<Rightarrow> error + 'a ndarray" where
  "np_delete w idx =
     (if shape w = [] then Inl NumpyError
      else let d = last (shape w) in
        case norm_indices d idx of
          None \<Rightarrow> Inl IndexError
        | Some js \<Rightarrow>
            Inr (NDArray (butlast (shape w) @ [length (filter (\<lambda>j. j \<notin> set js) [0..<d])])
                         (map snd (filter (\<lambda>(k, x). k mod d \<notin> set js) (enumerate 0 (data w))))))"

text \<open>\<open>np.where(m)[0]\<close>: the first-axis coordinate of every true element, in row-major order.\<close>

definition np_where0 :: "mask \<Rightarrow> error + nat list" where
  "np_where0 m =
     (if shape m = [] then Inl NumpyError
      else let s = prod_list (tl (shape m)) in
        Inr (map (\<lambda>(k, b). k div s) (filter snd (enumerate 0 (data m)))))"

text \<open>\<open>w[rows, :]\<close>: the named first-axis slices of an array of two or more dimensions.\<close>

definition take_rows :: "'a ndarray \<Rightarrow> nat list \<Rightarrow> error + 'a ndarray" where
  "take_rows w rows =
     (if length (shape w) < 2 then Inl IndexError
      else if \<exists>r \<in> set rows. hd (shape w) \<le> r then Inl IndexError
      else let s = prod_list (tl (shape w)) in
        Inr (NDArray (length rows # tl (shape w))
                     (concat (map (\<lambda>r. take s (drop (r * s) (data w))) rows))))"

text \<open>\<open>np.reshape(m, [-1])\<close>.\<close>

definition np_flatten :: "'a ndarray \<Rightarrow> 'a ndarray" where
  "np_flatten m = NDArray [length (data m)] (data m)"

text \<open>Row-major coordinates of a buffer position, and back.\<close>

fun unravel :: "nat list \<Rightarrow> nat \<Rightarrow> nat list" where
  "unravel [] k = []"
| "unravel (d # ds) k = (k div prod_list ds) # unravel ds (k mod prod_list ds)"

fun ravel :: "nat list \<Rightarrow> nat list \<Rightarrow> nat" where
  "ravel (d # ds) (i # is) = i * prod_list ds + ravel ds is"
| "ravel _ _ = 0"

definition swap_ends :: "'b list \<Rightarrow> 'b list" where
  "swap_ends xs = (if length xs < 2 then xs else last xs # butlast (tl xs) @ [hd xs])"

text \<open>\<open>np.swapaxes(m, 0, -1)\<close>.\<close>

definition np_swapaxes :: "'a ndarray \<Rightarrow> error + 'a ndarray" where
  "np_swapaxes m =
     (if shape m = [] then Inl NumpyError
      else let sh = swap_ends (shape m) in
        Inr (NDArray sh
               (map (\<lambda>k. data m ! ravel (shape m) (swap_ends (unravel sh k)))
                    [0..<prod_list sh])))"

text \<open>\<open>m[:k0, :k1, ..., :]\<close>: one slice per entry of the kernel size, then a full slice.\<close>

definition slice_front :: "'a ndarray \<Rightarrow> nat list \<Rightarrow> error + 'a ndarray" where
  "slice_front m ks =
     (if length (shape m) < length ks + 1 then Inl IndexError
      else let sh = map2 min ks (shape m) @ drop (length ks) (shape m) in
        Inr (NDArray sh
               (map snd (filter (\<lambda>(k, x). list_all2 (<) (take (length ks) (unravel (shape m) k)) ks)
                                (enumerate 0 (data m))))))"

text \<open>\<open>np.repeat(m[..., np.newaxis], n, axis=-1)\<close>.\<close>

definition repeat_last :: "'a ndarray \<Rightarrow> nat \<Rightarrow> 'a ndarray" where
  "repeat_last m n = NDArray (shape m @ [n]) (concat (map (replicate n) (data m)))"

text \<open>
  \<open>np.reshape(w[full], new_shape)\<close> with \<open>new_shape[-2] = -1\<close>: boolean indexing keeps the
  elements under a true entry, and the reshape infers the axis before the last.
\<close>

definition mask_select :: "'a ndarray \<Rightarrow> mask \<Rightarrow> error + 'a ndarray" where
  "mask_select w full =
     (if shape full \<noteq> shape w then Inl IndexError
      else if length (shape w) < 2 then Inl IndexError
      else let kept = map fst (filter snd (zip (data w) (data full)));
               n = length (shape w);
               rest = prod_list (take (n - 2) (shape w)) * last (shape w) in
        if rest = 0 then Inl NumpyError
        else if length kept mod rest \<noteq> 0 then Inl NumpyError
        else Inr (NDArray (take (n - 2) (shape w) @ [length kept div rest, last (shape w)]) kept))"

section \<open>Layers\<close>

text \<open>
  A Keras layer, as far as \<open>prune.py\<close> reads it: the class name, the entries of
  \<open>get_config()\<close> that are looked at (a missing key is \<open>None\<close>), the attributes
  \<open>kernel_size\<close> and \<open>data_format\<close>, the weights, and \<open>output_shape[1:]\<close>, which is
  \<open>None\<close> for a layer that has not been called yet.
\<close>

record layer =
  lname :: string
  class_name :: string
  units :: "int option"
  filters :: "int option"
  data_format :: "string option"
  kernel_size :: "nat list"
  weights :: "weight list"
  output_shape :: "nat list option"

text \<open>
  \<open>type(layer).from_config(config)\<close>: a new layer object of the same class carrying the
  configuration, its \<open>weights\<close> entry included. It has not been called, so it has no
  \<open>output_shape\<close> yet.
\<close>

definition from_config :: "layer \<Rightarrow> layer" where
  "from_config config = config\<lparr>output_shape := None\<rparr>"

fun sequence_err :: "(error + 'a) list \<Rightarrow> error + 'a list" where
  "sequence_err [] = Inr []"
| "sequence_err (Inl e # rs) = Inl e"
| "sequence_err (Inr x # rs) = (case sequence_err rs of Inl e \<Rightarrow> Inl e | Inr xs \<Rightarrow> Inr (x # xs))"

text \<open>
  Modelled from the spec: \<open>utils.extract_if_single_element\<close> is not among the sources;
  a sequence of one element stands for that element, any other sequence for itself.
\<close>

definition extract_if_single_element :: "'a list \<Rightarrow> 'a + 'a list" where
  "extract_if_single_element xs = (case xs of [x] \<Rightarrow> Inl x | _ \<Rightarrow> Inr xs)"

text \<open>
  What numpy makes of the extracted masks when it is handed them as an array: a single
  mask is itself; a tuple of masks of one shape is stacked along a new first axis; a
  tuple with an absent or differently shaped entry is no boolean array.
\<close>

definition np_asarray :: "mask option + mask option list \<Rightarrow> error + mask" where
  "np_asarray a =
     (case a of
        Inl None \<Rightarrow> Inl NumpyError
      | Inl (Some m) \<Rightarrow> Inr m
      | Inr ms \<Rightarrow>
          (case ms of
             [] \<Rightarrow> Inr (NDArray [0] [])
           | None # _ \<Rightarrow> Inl NumpyError
           | Some m0 # _ \<Rightarrow>
               if \<forall>x \<in> set ms. (case x of None \<Rightarrow> False | Some m \<Rightarrow> shape m = shape m0)
               then Inr (NDArray (length ms # shape m0) (concat (map (\<lambda>x. data (the x)) ms)))
               else Inl NumpyError))"

subsection \<open>\<open>_delete_channel_weights\<close> and \<open>_make_delete_mask\<close>\<close>

definition delete_channel_weights :: "layer \<Rightarrow> int list \<Rightarrow> error + layer" where
  "delete_channel_weights l channel_indices =
     (case units l of
        Some n \<Rightarrow>
          if \<exists>i \<in> set channel_indices. i + 1 > n then Inl ChannelIndexOutOfRange
          else (case sequence_err (map (\<lambda>w. np_delete w channel_indices) (weights l)) of
                  Inl e \<Rightarrow> Inl e
                | Inr ws \<Rightarrow>
                    Inr (from_config
                           (l\<lparr>units := Some (n - int (length channel_indices)), weights := ws\<rparr>)))
      | None \<Rightarrow>
          (case filters l of
             Some n \<Rightarrow>
               if \<exists>i \<in> set channel_indices. i + 1 > n then Inl ChannelIndexOutOfRange
               else (case sequence_err (map (\<lambda>w. np_delete w channel_indices) (weights l)) of
                       Inl e \<Rightarrow> Inl e
                     | Inr ws \<Rightarrow>
                         Inr (from_config
                                (l\<lparr>filters := Some (n - int (length channel_indices)), weights := ws\<rparr>)))
           | None \<Rightarrow> Inl MissingChannelDimension))"

definition make_delete_mask :: "layer \<Rightarrow> int list \<Rightarrow> error + mask" where
  "make_delete_mask l channel_indices =
     (case output_shape l of
        None \<Rightarrow> Inl AttributeError
      | Some sh \<Rightarrow>
          if sh = [] then Inl IndexError
          else let first_axis = (data_format l = Some ''channels_first'');
                   d = (if first_axis then hd sh else last sh);
                   coord = (\<lambda>k. if first_axis then k div prod_list (tl sh) else k mod d) in
            case norm_indices d channel_indices of
              None \<Rightarrow> Inl IndexError
            | Some js \<Rightarrow>
                Inr (NDArray sh (map (\<lambda>(k, b). b \<and> coord k \<notin> set js)
                                     (enumerate 0 (data (np_ones sh))))))"

subsection \<open>The mask propagator: \<open>_apply_delete_mask\<close>\<close>

definition apply_delete_mask :: "layer \<Rightarrow> mask option list \<Rightarrow> error + layer \<times> mask option" where
  "apply_delete_mask l inbound_delete_masks =
     (if \<forall>m \<in> set inbound_delete_masks. m = None then Inr (l, None)
      else let inbound = extract_if_single_element inbound_delete_masks in
        if class_name l = ''InputLayer'' then Inl InputLayerMasked
        else if class_name l = ''Dense'' then
          (case weights l of
             [] \<Rightarrow> Inl IndexError
           | w0 # ws \<Rightarrow>
               (case np_asarray inbound of
                  Inl e \<Rightarrow> Inl e
                | Inr m \<Rightarrow>
                    (case np_where0 m of
                       Inl e \<Rightarrow> Inl e
                     | Inr rows \<Rightarrow>
                         (case take_rows w0 rows of
                            Inl e \<Rightarrow> Inl e
                          | Inr w0' \<Rightarrow>
                              (case output_shape l of
                                 None \<Rightarrow> Inl AttributeError
                               | Some sh \<Rightarrow>
                                   Inr (from_config (l\<lparr>weights := w0' # ws\<rparr>),
                                        Some (np_ones sh)))))))
        else if class_name l = ''Flatten'' then
          (case np_asarray inbound of
             Inl e \<Rightarrow> Inl e
           | Inr m \<Rightarrow> Inr (l, Some (np_flatten m)))
        else if class_name l = ''Conv2D'' then
          (case output_shape l of
             None \<Rightarrow> Inl AttributeError
           | Some sh \<Rightarrow>
               (case (if data_format l = Some ''channels_first''
                      then (case np_asarray inbound of Inl e \<Rightarrow> Inl e | Inr m \<Rightarrow> np_swapaxes m)
                      else (case inbound of Inl None \<Rightarrow> Inl TypeError
                                          | Inl (Some m) \<Rightarrow> Inr m
                                          | Inr _ \<Rightarrow> Inl TypeError)) of
                  Inl e \<Rightarrow> Inl e
                | Inr m \<Rightarrow>
                    (case slice_front m (kernel_size l) of
                       Inl e \<Rightarrow> Inl e
                     | Inr m' \<Rightarrow>
                         (case weights l of
                            [] \<Rightarrow> Inl IndexError
                          | w0 # ws \<Rightarrow>
                              if shape w0 = [] then Inl IndexError
                              else (case mask_select w0 (repeat_last m' (last (shape w0))) of
                                      Inl e \<Rightarrow> Inl e
                                    | Inr w0' \<Rightarrow>
                                        Inr (from_config (l\<lparr>weights := w0' # ws\<rparr>),
                                             Some (np_ones sh)))))))
        else Inl UnsupportedOperationKind)"

text \<open>The channel-count entry of the configuration that \<open>_delete_channel_weights\<close> picks:
  \<open>units\<close> when the key is there, else \<open>filters\<close>.\<close>

definition channels :: "layer \<Rightarrow> int option" where
  "channels l = (case units l of Some n \<Rightarrow> Some n | None \<Rightarrow> filters l)"

subsection \<open>Two example layers\<close>

definition dense_example :: layer where
  "dense_example = \<lparr>lname = ''dense_1'', class_name = ''Dense'', units = Some 3, filters = None,
     data_format = None, kernel_size = [],
     weights = [NDArray [2, 3] [1, 2, 3, 4, 5, 6], NDArray [3] [7, 8, 9]],
     output_shape = Some [3]\<rparr>"

definition dense_next :: layer where
  "dense_next = \<lparr>lname = ''dense_2'', class_name = ''Dense'', units = Some 2, filters = None,
     data_format = None, kernel_size = [],
     weights = [NDArray [3, 2] [10, 11, 12, 13, 14, 15], NDArray [2] [16, 17]],
     output_shape = Some [2]\<rparr>"

section \<open>The graph\<close>

text \<open>
  Layers are objects: they are referred to by identity (\<open>lid\<close>), and the store of a model
  gives the layer object and its list \<open>inbound_nodes\<close> at each identity. A node is one
  application of a layer; \<open>layer.inbound_nodes[i]\<close> is the node \<open>(layer, i)\<close>, and
  \<open>layer.get_output_at(i)\<close> is its output tensor.

  A tensor of the original graph is opaque; a tensor made during an edit is the symbolic
  result of calling a layer on a tensor. \<open>Tuple\<close> is a Python tuple of tensors, which is
  what \<open>extract_if_single_element\<close> hands on when there is not exactly one.
\<close>

type_synonym lid = nat

datatype tensor = Orig nat | Call layer tensor | Tuple "tensor list"

record node =
  inbound_layers :: "lid list"
  node_indices :: "nat list"
  output_tensor :: tensor

record model =
  layers :: "lid list"
  layer_at :: "lid \<Rightarrow> layer"
  inbound_nodes :: "lid \<Rightarrow> node list"
  inputs :: "tensor list"
  output_layers :: "lid list"
  output_layers_node_indices :: "nat list"
  input_shapes :: "nat list list"
    \<comment> \<open>\<open>node.outbound_layer.input_shape[1:]\<close> for each node of \<open>model.inbound_nodes\<close>\<close>

type_synonym result = "tensor \<times> mask option"
type_synonym cache = "lid \<times> nat \<Rightarrow> result option"
type_synonym substitution = "tensor \<Rightarrow> result option"

text \<open>
  What an edit does beyond its return value: it calls layers on tensors, which adds nodes
  to the graph the layers live in, it copies models and it builds a model. The trace keeps
  these in order. \<open>Rebuilt\<close> is a call made by \<open>_rebuild_rec\<close> for a node, \<open>Applied\<close> a
  call made by an edit callback. \<open>Round\<close> marks that the loop of \<open>reused_core_logic\<close> takes
  up a node of the target layer; it stands for no effect of the program and only keeps the
  order of the rounds visible.
\<close>

datatype event =
    Rebuilt "lid \<times> nat" layer "tensor list"
  | Applied layer "tensor list"
  | Round "lid \<times> nat"
  | CleanCopy
  | NewModel

record rstate =
  finished_nodes :: cache
  trace :: "event list"

definition tensor_arg :: "tensor list \<Rightarrow> tensor" where
  "tensor_arg ts = (case extract_if_single_element ts of Inl t \<Rightarrow> t | Inr xs \<Rightarrow> Tuple xs)"

text \<open>
  Calling a layer, \<open>new_layer(extract_if_single_element(inputs))\<close>. The call runs inside
  Keras, which is no part of \<open>prune.py\<close>; two of its refusals are kept, because the edits
  run into them. Keras takes a tensor or a list of tensors: the tuple that comes from
  \<open>zip(*...)\<close> when there is not exactly one input is refused. And a layer that was made by
  \<open>from_config\<close> with a \<open>weights\<close> entry is built at its first call, where Keras sets the
  initial weights and refuses them when their last axis is not the declared number of
  units or filters. The check of the input's shape against the kernel is left out: tensors
  here carry no shape.
\<close>

definition weights_fit :: "layer \<Rightarrow> bool" where
  "weights_fit l =
     (output_shape l \<noteq> None \<or> weights l = []
      \<or> (case (case units l of Some n \<Rightarrow> Some n | None \<Rightarrow> filters l) of
            None \<Rightarrow> True
          | Some c \<Rightarrow> \<forall>w \<in> set (weights l). shape w \<noteq> [] \<and> int (last (shape w)) = c))"

definition call_layer :: "layer \<Rightarrow> tensor list \<Rightarrow> error + tensor" where
  "call_layer new_layer ts =
     (case extract_if_single_element ts of
        Inr tuple \<Rightarrow> Inl KerasError
      | Inl t \<Rightarrow> if weights_fit new_layer then Inr (Call new_layer t) else Inl KerasError)"

text \<open>
  \<open>xs.index(x)\<close>: the position of the first occurrence. The source asks for it only after
  \<open>x in xs\<close>, so \<open>None\<close> here is the failed membership test.
\<close>

fun index_of :: "'a list \<Rightarrow> 'a \<Rightarrow> nat option" where
  "index_of [] x = None"
| "index_of (y # ys) x = (if x = y then Some 0 else map_option Suc (index_of ys x))"

subsection \<open>\<open>rebuild_submodel\<close> and its inner \<open>_rebuild_rec\<close>\<close>

text \<open>
  The first argument is the number of nested calls the interpreter still allows. The test
  \<open>not layer\<close> of the source cannot succeed where it stands: a layer object is truthy, and
  \<open>None\<close> would have failed on \<open>layer.inbound_nodes\<close> two lines earlier.
\<close>

fun rebuild_rec ::
    "nat \<Rightarrow> model \<Rightarrow> tensor list \<Rightarrow> substitution \<Rightarrow> mask option list \<Rightarrow> lid \<Rightarrow> nat \<Rightarrow> rstate
       \<Rightarrow> (error + result) \<times> rstate"
  and rebuild_list ::
    "nat \<Rightarrow> model \<Rightarrow> tensor list \<Rightarrow> substitution \<Rightarrow> mask option list \<Rightarrow> (lid \<times> nat) list \<Rightarrow> rstate
       \<Rightarrow> (error + result list) \<times> rstate"
  where
  "rebuild_rec 0 m model_inputs replace_tensors input_delete_masks l node_index s =
     (Inl RecursionLimit, s)"
| "rebuild_rec (Suc n) m model_inputs replace_tensors input_delete_masks l node_index s =
     (if length (inbound_nodes m l) \<le> node_index then (Inl IndexError, s)
      else let node = inbound_nodes m l ! node_index; layer_output = output_tensor node in
        case replace_tensors layer_output of
          Some r \<Rightarrow> (Inr r, s)
        | None \<Rightarrow>
           (case finished_nodes s (l, node_index) of
              Some r \<Rightarrow> (Inr r, s)
            | None \<Rightarrow>
               (case index_of model_inputs layer_output of
                  Some j \<Rightarrow>
                    if j < length input_delete_masks
                    then (Inr (layer_output, input_delete_masks ! j), s)
                    else (Inl IndexError, s)
                | None \<Rightarrow>
                   (case rebuild_list n m model_inputs replace_tensors input_delete_masks
                           (zip (inbound_layers node) (node_indices node)) s of
                      (Inl e, s') \<Rightarrow> (Inl e, s')
                    | (Inr rs, s') \<Rightarrow>
                        if rs = [] then (Inl DanglingOperation, s')
                        else (case apply_delete_mask (layer_at m l) (map snd rs) of
                                Inl e \<Rightarrow> (Inl e, s')
                              | Inr (new_layer, output_mask) \<Rightarrow>
                                 (case call_layer new_layer (map fst rs) of
                                    Inl e \<Rightarrow> (Inl e, s')
                                  | Inr out \<Rightarrow>
                                     (Inr (out, output_mask),
                                      s'\<lparr>finished_nodes :=
                                           (finished_nodes s')((l, node_index) \<mapsto> (out, output_mask)),
                                         trace := trace s' @
                                           [Rebuilt (l, node_index) new_layer (map fst rs)]\<rparr>)))))))"
| "rebuild_list n m model_inputs replace_tensors input_delete_masks [] s = (Inr [], s)"
| "rebuild_list n m model_inputs replace_tensors input_delete_masks ((l, i) # rest) s =
     (case rebuild_rec n m model_inputs replace_tensors input_delete_masks l i s of
        (Inl e, s') \<Rightarrow> (Inl e, s')
      | (Inr r, s') \<Rightarrow>
          (case rebuild_list n m model_inputs replace_tensors input_delete_masks rest s' of
             (Inl e, s'') \<Rightarrow> (Inl e, s'')
           | (Inr rs, s'') \<Rightarrow> (Inr (r # rs), s'')))"

text \<open>
  \<open>rebuild_submodel\<close>: an empty or absent list of input masks stands for one absent mask
  per model input; the finished nodes are those of the state, and come back in it.
\<close>

definition rebuild_submodel ::
    "nat \<Rightarrow> model \<Rightarrow> tensor list \<Rightarrow> lid list \<Rightarrow> nat list \<Rightarrow> substitution \<Rightarrow> mask option list
       \<Rightarrow> rstate \<Rightarrow> (error + tensor list \<times> mask option list) \<times> rstate" where
  "rebuild_submodel limit m model_inputs out_layers out_node_indices replace_tensors
       input_delete_masks s =
     (let masks = (if input_delete_masks = [] then replicate (length model_inputs) None
                   else input_delete_masks) in
      case rebuild_list limit m model_inputs replace_tensors masks
             (zip out_layers out_node_indices) s of
        (Inl e, s') \<Rightarrow> (Inl e, s')
      | (Inr rs, s') \<Rightarrow>
          if rs = [] then (Inl DanglingOperation, s')
          else (Inr (map fst rs, map snd rs), s'))"

section \<open>The edit orchestrator\<close>

text \<open>
  Modelled from the spec: \<open>model_utils.clean_copy\<close> is not among the sources. The spec has it
  deep-copy the graph, so that the copy has the structure, configuration and weights of the
  original. A model here is a value without object identity, so the copy is the same value,
  and the trace records that a copy was made.
\<close>

definition clean_copy :: "'g \<Rightarrow> rstate \<Rightarrow> 'g \<times> rstate" where
  "clean_copy g s = (g, s\<lparr>trace := trace s @ [CleanCopy]\<rparr>)"

text \<open>
  Modelled from the spec: \<open>model_utils.get_node_depth\<close> is not among the sources. The spec
  defines the depth of a node as the length of the longest path from it to a declared
  output of the graph, counted in edges, and 0 for a declared output that feeds no other.
  A node from which no output is reached is not contained in the model. The paths are
  followed for as many steps as the model has nodes, which is every path of a graph
  without cycles.
\<close>

definition edges :: "model \<Rightarrow> lid \<times> nat \<Rightarrow> (lid \<times> nat) list" where
  "edges m nd =
     zip (inbound_layers (inbound_nodes m (fst nd) ! snd nd))
         (node_indices (inbound_nodes m (fst nd) ! snd nd))"

definition all_nodes :: "model \<Rightarrow> (lid \<times> nat) list" where
  "all_nodes m = concat (map (\<lambda>l. map (Pair l) [0..<length (inbound_nodes m l)]) (layers m))"

definition consumers :: "model \<Rightarrow> lid \<times> nat \<Rightarrow> (lid \<times> nat) list" where
  "consumers m nd = filter (\<lambda>c. nd \<in> set (edges m c)) (all_nodes m)"

definition is_output :: "model \<Rightarrow> lid \<times> nat \<Rightarrow> bool" where
  "is_output m nd = (nd \<in> set (zip (output_layers m) (output_layers_node_indices m)))"

fun max_list :: "int list \<Rightarrow> int option" where
  "max_list [] = None"
| "max_list (x # xs) = Some (fold max xs x)"

fun longest_path :: "nat \<Rightarrow> model \<Rightarrow> lid \<times> nat \<Rightarrow> int option" where
  "longest_path 0 m nd = (if is_output m nd then Some 0 else None)"
| "longest_path (Suc k) m nd =
     max_list ((if is_output m nd then [0] else [])
               @ map (\<lambda>d. d + 1) (List.map_filter (\<lambda>c. longest_path k m c) (consumers m nd)))"

definition get_node_depth :: "model \<Rightarrow> lid \<times> nat \<Rightarrow> error + int" where
  "get_node_depth m nd =
     (case longest_path (length (all_nodes m)) m nd of
        None \<Rightarrow> Inl KeyError
      | Some d \<Rightarrow> Inr d)"

text \<open>
  Modelled from the spec: \<open>model_utils.check_nodes_in_model\<close> and \<open>utils.bool_to_index\<close> are not
  among the sources. Together they give the indices of the layer's nodes that are present in
  the model.
\<close>

definition nodes_in_model :: "model \<Rightarrow> lid \<Rightarrow> nat list" where
  "nodes_in_model m l =
     filter (\<lambda>i. case get_node_depth m (l, i) of Inl e \<Rightarrow> False | Inr d \<Rightarrow> True)
       [0..<length (inbound_nodes m l)]"

text \<open>
  Modelled from the spec: \<open>utils.sort_x_by_y\<close> is not among the sources. The spec has the
  processing order be the reverse of ascending depth, so this sorts \<open>x\<close> by ascending \<open>y\<close>.
\<close>

definition sort_x_by_y :: "'a list \<Rightarrow> int list \<Rightarrow> 'a list" where
  "sort_x_by_y x y = map snd (sort_key fst (zip y x))"

text \<open>\<open>model.get_layer(name)\<close>: the first layer of the model with that name.\<close>

definition get_layer :: "model \<Rightarrow> string \<Rightarrow> error + lid" where
  "get_layer m nm =
     (case filter (\<lambda>l. lname (layer_at m l) = nm) (layers m) of
        [] \<Rightarrow> Inl NoSuchLayer
      | l # _ \<Rightarrow> Inr l)"

text \<open>The model that \<open>Model(model.inputs, new_outputs)\<close> builds: its inputs and its outputs.\<close>

datatype built = Model "tensor list" "tensor list"

type_synonym modifier =
  "model \<Rightarrow> lid \<Rightarrow> nat \<Rightarrow> tensor list \<Rightarrow> rstate \<Rightarrow> (error + substitution) \<times> rstate"

text \<open>Lines 341 to 343: the depth of every chosen node, then the order of processing.\<close>

definition sorted_indices :: "model \<Rightarrow> lid \<Rightarrow> nat list \<Rightarrow> error + nat list" where
  "sorted_indices m l node_idxs =
     (case sequence_err
             (map (\<lambda>i. if length (inbound_nodes m l) \<le> i then Inl IndexError
                        else get_node_depth m (l, i)) node_idxs) of
        Inl e \<Rightarrow> Inl e
      | Inr node_depths \<Rightarrow> Inr (rev (sort_x_by_y node_idxs node_depths)))"

text \<open>The \<open>for\<close> loop of \<open>reused_core_logic\<close>, one node of the target layer per round.\<close>

fun edit_loop ::
    "nat \<Rightarrow> model \<Rightarrow> lid \<Rightarrow> modifier \<Rightarrow> mask option list \<Rightarrow> nat list \<Rightarrow> substitution \<Rightarrow> rstate
       \<Rightarrow> (error + substitution) \<times> rstate" where
  "edit_loop limit m l modifier_function input_delete_masks [] replace_tensors s =
     (Inr replace_tensors, s)"
| "edit_loop limit m l modifier_function input_delete_masks (node_index # rest) replace_tensors s0 =
     (let s = s0\<lparr>trace := trace s0 @ [Round (l, node_index)]\<rparr> in
      if length (inbound_nodes m l) \<le> node_index then (Inl IndexError, s)
      else let inbound_node = inbound_nodes m l ! node_index in
        case rebuild_submodel limit m (inputs m) (inbound_layers inbound_node)
               (node_indices inbound_node) replace_tensors input_delete_masks s of
          (Inl e, s1) \<Rightarrow> (Inl e, s1)
        | (Inr (submodel_outputs, _), s1) \<Rightarrow>
            (case modifier_function m l node_index submodel_outputs s1 of
               (Inl e, s2) \<Rightarrow> (Inl e, s2)
             | (Inr d, s2) \<Rightarrow>
                 edit_loop limit m l modifier_function input_delete_masks rest
                   (replace_tensors ++ d) s2))"

text \<open>
  \<open>reused_core_logic\<close>. \<open>copy\<close> is a Python value, \<open>None\<close> or a boolean, tested for truth;
  \<open>node_indices\<close> is a list, empty when the caller gave none.
\<close>

definition reused_core_logic ::
    "nat \<Rightarrow> model \<Rightarrow> lid \<Rightarrow> modifier \<Rightarrow> nat list \<Rightarrow> bool option \<Rightarrow> mask option list \<Rightarrow> rstate
       \<Rightarrow> (error + built) \<times> rstate" where
  "reused_core_logic limit model0 layer0 modifier_function node_idxs0 copy input_delete_masks s0 =
     (if layer0 \<notin> set (layers model0) then (Inl OperationNotFound, s0)
      else let node_idxs = (if node_idxs0 = [] then nodes_in_model model0 layer0
                               else node_idxs0) in
        case (if copy = Some True
              then (let (m', s') = clean_copy model0 s0 in
                    case get_layer m' (lname (layer_at model0 layer0)) of
                      Inl e \<Rightarrow> (Inl e, s')
                    | Inr l' \<Rightarrow> (Inr (m', l'), s'))
              else (Inr (model0, layer0), s0)) of
          (Inl e, s1) \<Rightarrow> (Inl e, s1)
        | (Inr (m, l), s1) \<Rightarrow>
            (case sorted_indices m l node_idxs of
               Inl e \<Rightarrow> (Inl e, s1)
             | Inr order \<Rightarrow>
                 (case edit_loop limit m l modifier_function input_delete_masks order Map.empty
                         (s1\<lparr>finished_nodes := Map.empty\<rparr>) of
                    (Inl e, s2) \<Rightarrow> (Inl e, s2)
                  | (Inr replace_tensors, s2) \<Rightarrow>
                      (case rebuild_submodel limit m (inputs m) (output_layers m)
                              (output_layers_node_indices m) replace_tensors input_delete_masks s2 of
                         (Inl e, s3) \<Rightarrow> (Inl e, s3)
                       | (Inr (new_outputs, _), s3) \<Rightarrow>
                           let new_model = Model (inputs m) new_outputs;
                               s4 = s3\<lparr>trace := trace s3 @ [NewModel]\<rparr> in
                           if copy = Some True
                           then (let (g, s5) = clean_copy new_model s4 in (Inr g, s5))
                           else (Inr new_model, s4)))))"

subsection \<open>The four edits\<close>

text \<open>
  An argument the caller may leave out. The default is the one the \<open>def\<close> line of each
  function gives.
\<close>

datatype 'a arg = Omitted | Passed 'a

definition arg_default :: "'a \<Rightarrow> 'a arg \<Rightarrow> 'a" where
  "arg_default d a = (case a of Omitted \<Rightarrow> d | Passed v \<Rightarrow> v)"

text \<open>A callback's call of the new layer: it fails as \<open>call_layer\<close> does, or it is recorded.\<close>

definition apply_layer :: "layer \<Rightarrow> tensor list \<Rightarrow> rstate \<Rightarrow> (error + tensor) \<times> rstate" where
  "apply_layer new_layer ins s =
     (case call_layer new_layer ins of
        Inl e \<Rightarrow> (Inl e, s)
      | Inr out \<Rightarrow> (Inr out, s\<lparr>trace := trace s @ [Applied new_layer ins]\<rparr>))"

definition get_output_at :: "model \<Rightarrow> lid \<Rightarrow> nat \<Rightarrow> error + tensor" where
  "get_output_at m l i =
     (if length (inbound_nodes m l) \<le> i then Inl IndexError
      else Inr (output_tensor (inbound_nodes m l ! i)))"

definition insert_callback :: "layer \<Rightarrow> modifier" where
  "insert_callback new_layer m this_layer node_index ins s =
     (if length ins \<ge> 2 then (Inl MultiInputUnsupported, s)
      else case apply_layer new_layer ins s of
        (Inl e, s1) \<Rightarrow> (Inl e, s1)
      | (Inr new_output, s1) \<Rightarrow>
          if length (inbound_nodes m this_layer) \<le> node_index then (Inl IndexError, s1)
          else let node = inbound_nodes m this_layer ! node_index in
            case (inbound_layers node, node_indices node) of
              (l0 # _, i0 # _) \<Rightarrow>
                (case get_output_at m l0 i0 of
                   Inl e \<Rightarrow> (Inl e, s1)
                 | Inr old_output \<Rightarrow> (Inr [old_output \<mapsto> (new_output, None)], s1))
            | _ \<Rightarrow> (Inl IndexError, s1))"

definition replace_callback :: "layer \<Rightarrow> modifier" where
  "replace_callback new_layer m this_layer node_index ins s =
     (case apply_layer new_layer ins s of
        (Inl e, s1) \<Rightarrow> (Inl e, s1)
      | (Inr new_output, s1) \<Rightarrow>
          (case get_output_at m this_layer node_index of
             Inl e \<Rightarrow> (Inl e, s1)
           | Inr replaced_layer_output \<Rightarrow>
               (Inr [replaced_layer_output \<mapsto> (new_output, None)], s1)))"

definition delete_callback :: modifier where
  "delete_callback m this_layer node_index ins s =
     (if length ins \<ge> 2 then (Inl MultiInputUnsupported, s)
      else case get_output_at m this_layer node_index of
             Inl e \<Rightarrow> (Inl e, s)
           | Inr deleted_layer_output \<Rightarrow> (Inr [deleted_layer_output \<mapsto> (tensor_arg ins, None)], s))"

definition delete_inbound_weights :: "layer \<Rightarrow> mask \<Rightarrow> modifier" where
  "delete_inbound_weights new_layer new_delete_mask m this_layer node_index ins s =
     (case apply_layer new_layer ins s of
        (Inl e, s1) \<Rightarrow> (Inl e, s1)
      | (Inr new_output, s1) \<Rightarrow>
          (case get_output_at m this_layer node_index of
             Inl e \<Rightarrow> (Inl e, s1)
           | Inr deleted_layer_output \<Rightarrow>
               (Inr [deleted_layer_output \<mapsto> (new_output, Some new_delete_mask)], s1)))"

definition insert_layer ::
    "nat \<Rightarrow> model \<Rightarrow> lid \<Rightarrow> layer \<Rightarrow> nat list \<Rightarrow> bool option arg \<Rightarrow> rstate
       \<Rightarrow> (error + built) \<times> rstate" where
  "insert_layer limit m l new_layer node_idxs copy s =
     reused_core_logic limit m l (insert_callback new_layer) node_idxs
       (arg_default (Some True) copy) [] s"

definition replace_layer ::
    "nat \<Rightarrow> model \<Rightarrow> lid \<Rightarrow> layer \<Rightarrow> nat list \<Rightarrow> bool option arg \<Rightarrow> rstate
       \<Rightarrow> (error + built) \<times> rstate" where
  "replace_layer limit m l new_layer node_idxs copy s =
     reused_core_logic limit m l (replace_callback new_layer) node_idxs
       (arg_default (Some True) copy) [] s"

definition delete_layer ::
    "nat \<Rightarrow> model \<Rightarrow> lid \<Rightarrow> nat list \<Rightarrow> bool option arg \<Rightarrow> rstate
       \<Rightarrow> (error + built) \<times> rstate" where
  "delete_layer limit m l node_idxs copy s =
     reused_core_logic limit m l delete_callback node_idxs
       (arg_default (Some True) copy) [] s"

definition delete_channels ::
    "nat \<Rightarrow> model \<Rightarrow> lid \<Rightarrow> int list \<Rightarrow> nat list \<Rightarrow> bool option arg \<Rightarrow> rstate
       \<Rightarrow> (error + built) \<times> rstate" where
  "delete_channels limit m l channel_indices node_idxs copy s =
     (case delete_channel_weights (layer_at m l) channel_indices of
        Inl e \<Rightarrow> (Inl e, s)
      | Inr new_layer \<Rightarrow>
          (case make_delete_mask (layer_at m l) channel_indices of
             Inl e \<Rightarrow> (Inl e, s)
           | Inr new_delete_mask \<Rightarrow>
               reused_core_logic limit m l (delete_inbound_weights new_layer new_delete_mask)
                 node_idxs (arg_default None copy)
                 (map (\<lambda>sh. Some (np_ones sh)) (input_shapes m)) s))"

section \<open>Example graphs\<close>

text \<open>A chain: an input layer, then \<open>dense_example\<close>, then \<open>dense_next\<close>.\<close>

definition input_example :: layer where
  "input_example = \<lparr>lname = ''input_1'', class_name = ''InputLayer'', units = None, filters = None,
     data_format = None, kernel_size = [], weights = [], output_shape = Some [2]\<rparr>"

definition chain_model :: model where
  "chain_model = \<lparr>layers = [0, 1, 2],
     layer_at = (\<lambda>l. if l = 0 then input_example else if l = 1 then dense_example else dense_next),
     inbound_nodes = (\<lambda>l.
        if l = 0 then [\<lparr>inbound_layers = [], node_indices = [], output_tensor = Orig 0\<rparr>]
        else if l = 1 then [\<lparr>inbound_layers = [0], node_indices = [0], output_tensor = Orig 1\<rparr>]
        else if l = 2 then [\<lparr>inbound_layers = [1], node_indices = [0], output_tensor = Orig 2\<rparr>]
        else []),
     inputs = [Orig 0], output_layers = [2], output_layers_node_indices = [0],
     input_shapes = [[2]]\<rparr>"


definition empty_state :: rstate where
  "empty_state = \<lparr>finished_nodes = Map.empty, trace = []\<rparr>"

text \<open>A diamond: \<open>a\<close> feeds \<open>b\<close> and \<open>c\<close>, and \<open>d\<close> takes both.\<close>

definition plain_layer :: "string \<Rightarrow> string \<Rightarrow> layer" where
  "plain_layer nm cls = \<lparr>lname = nm, class_name = cls, units = None, filters = None,
     data_format = None, kernel_size = [], weights = [], output_shape = Some [2]\<rparr>"

definition diamond_model :: model where
  "diamond_model = \<lparr>layers = [0, 1, 2, 3, 4],
     layer_at = (\<lambda>l. if l = 0 then input_example
                      else if l = 1 then plain_layer ''a'' ''Activation''
                      else if l = 2 then plain_layer ''b'' ''Activation''
                      else if l = 3 then plain_layer ''c'' ''Activation''
                      else plain_layer ''d'' ''Add''),
     inbound_nodes = (\<lambda>l.
        if l = 0 then [\<lparr>inbound_layers = [], node_indices = [], output_tensor = Orig 0\<rparr>]
        else if l = 1 then [\<lparr>inbound_layers = [0], node_indices = [0], output_tensor = Orig 1\<rparr>]
        else if l = 2 then [\<lparr>inbound_layers = [1], node_indices = [0], output_tensor = Orig 2\<rparr>]
        else if l = 3 then [\<lparr>inbound_layers = [1], node_indices = [0], output_tensor = Orig 3\<rparr>]
        else if l = 4 then [\<lparr>inbound_layers = [2, 3], node_indices = [0, 0], output_tensor = Orig 4\<rparr>]
        else []),
     inputs = [Orig 0], output_layers = [4], output_layers_node_indices = [0],
     input_shapes = [[2]]\<rparr>"

definition tensor_a :: tensor where
  "tensor_a = Call (plain_layer ''a'' ''Activation'') (Orig 0)"

definition tensor_b :: tensor where
  "tensor_b = Call (plain_layer ''b'' ''Activation'') tensor_a"

definition tensor_c :: tensor where
  "tensor_c = Call (plain_layer ''c'' ''Activation'') tensor_a"

text \<open>The state after the two predecessors of \<open>d\<close> have been rebuilt from an empty state.\<close>

definition diamond_rebuilt :: rstate where
  "diamond_rebuilt =
     \<lparr>finished_nodes = [(1, 0) \<mapsto> (tensor_a, None), (2, 0) \<mapsto> (tensor_b, None),
                         (3, 0) \<mapsto> (tensor_c, None)],
      trace = [Rebuilt (1, 0) (plain_layer ''a'' ''Activation'') [Orig 0],
               Rebuilt (2, 0) (plain_layer ''b'' ''Activation'') [tensor_a],
               Rebuilt (3, 0) (plain_layer ''c'' ''Activation'') [tensor_a]]\<rparr>"

section \<open>Notions used to state the properties\<close>

text \<open>How many copies of a model a trace records.\<close>

definition copies :: "event list \<Rightarrow> nat" where
  "copies t = length (filter (\<lambda>e. e = CleanCopy) t)"

text \<open>The nodes for which \<open>_rebuild_rec\<close> did its computation, in order, one entry per time.\<close>

fun rebuilt_nodes :: "event list \<Rightarrow> (lid \<times> nat) list" where
  "rebuilt_nodes [] = []"
| "rebuilt_nodes (Rebuilt nd l ts # es) = nd # rebuilt_nodes es"
| "rebuilt_nodes (e # es) = rebuilt_nodes es"

text \<open>The nodes the loop of the orchestrator took up, in order.\<close>

fun rounds :: "event list \<Rightarrow> (lid \<times> nat) list" where
  "rounds [] = []"
| "rounds (Round nd # es) = nd # rounds es"
| "rounds (e # es) = rounds es"

definition quiet :: "rstate \<Rightarrow> rstate \<Rightarrow> bool" where
  "quiet s s' = (\<exists>ev. trace s' = trace s @ ev \<and> rounds ev = [])"

text \<open>
  The graph has no cycle: some rank goes down along every inbound edge. A node needs
  rebuilding when its output tensor is neither substituted nor a model input.
\<close>

definition ranked :: "model \<Rightarrow> (lid \<times> nat \<Rightarrow> nat) \<Rightarrow> bool" where
  "ranked m rank =
     (\<forall>l i. i < length (inbound_nodes m l) \<longrightarrow>
        (\<forall>e \<in> set (zip (inbound_layers (inbound_nodes m l ! i))
                          (node_indices (inbound_nodes m l ! i))). rank e < rank (l, i)))"

definition needs_rebuild :: "model \<Rightarrow> tensor list \<Rightarrow> substitution \<Rightarrow> lid \<times> nat \<Rightarrow> bool" where
  "needs_rebuild m ins rt nd =
     (let t = output_tensor (inbound_nodes m (fst nd) ! snd nd)
      in rt t = None \<and> index_of ins t = None)"

text \<open>
  The result a node has once the rebuilding is over, read off without any computation: its
  substitute, else the pair the cache holds for it, else, for a model input, the input
  tensor with its mask.
\<close>

definition resolve ::
  "model \<Rightarrow> tensor list \<Rightarrow> substitution \<Rightarrow> mask option list \<Rightarrow> cache \<Rightarrow> lid \<times> nat \<Rightarrow> result option" where
  "resolve m ins rt ms c nd =
     (let t = output_tensor (inbound_nodes m (fst nd) ! snd nd) in
      case rt t of
        Some r \<Rightarrow> Some r
      | None \<Rightarrow>
         (case c nd of
            Some r \<Rightarrow> Some r
          | None \<Rightarrow>
             (case index_of ins t of
                Some j \<Rightarrow> if j < length ms then Some (t, ms ! j) else None
              | None \<Rightarrow> None)))"

text \<open>
  A rebuild computation is explained by a cache when it is what \<open>_rebuild_rec\<close> has to do
  for the node given the results of the node's inbound nodes in that cache: the node needed
  rebuilding, the inputs of the call are the tensors of those results, in the order of the
  inbound edges, the layer called is the one the mask propagator makes of the node's layer
  and the masks of those results, and the cache holds for the node the tensor of that call
  and the outbound mask.
\<close>

definition explained_rebuild ::
  "model \<Rightarrow> tensor list \<Rightarrow> substitution \<Rightarrow> mask option list \<Rightarrow> cache
     \<Rightarrow> lid \<times> nat \<Rightarrow> layer \<Rightarrow> tensor list \<Rightarrow> bool" where
  "explained_rebuild m ins rt ms c nd nl inps =
     (snd nd < length (inbound_nodes m (fst nd)) \<and> needs_rebuild m ins rt nd
      \<and> edges m nd \<noteq> []
      \<and> (\<forall>e \<in> set (edges m nd). resolve m ins rt ms c e \<noteq> None)
      \<and> inps = map (\<lambda>e. fst (the (resolve m ins rt ms c e))) (edges m nd)
      \<and> (case apply_delete_mask (layer_at m (fst nd))
                 (map (\<lambda>e. snd (the (resolve m ins rt ms c e))) (edges m nd)) of
            Inl err \<Rightarrow> False
          | Inr (nl', om) \<Rightarrow>
              nl' = nl \<and> (case call_layer nl inps of
                            Inl err \<Rightarrow> False
                          | Inr out \<Rightarrow> c nd = Some (out, om))))"

definition explained ::
  "model \<Rightarrow> tensor list \<Rightarrow> substitution \<Rightarrow> mask option list \<Rightarrow> cache \<Rightarrow> event \<Rightarrow> bool" where
  "explained m ins rt ms c e =
     (case e of Rebuilt nd nl inps \<Rightarrow> explained_rebuild m ins rt ms c nd nl inps | _ \<Rightarrow> False)"

definition grows ::
  "model \<Rightarrow> tensor list \<Rightarrow> substitution \<Rightarrow> mask option list \<Rightarrow> (lid \<times> nat \<Rightarrow> nat)
     \<Rightarrow> (lid \<times> nat) list \<Rightarrow> rstate \<Rightarrow> rstate \<Rightarrow> bool" where
  "grows m ins rt ms rank fr s s' =
     (\<exists>new. trace s' = trace s @ new
        \<and> length (rebuilt_nodes new) = length new
        \<and> distinct (rebuilt_nodes new)
        \<and> set (rebuilt_nodes new) \<inter> dom (finished_nodes s) = {}
        \<and> dom (finished_nodes s') = dom (finished_nodes s) \<union> set (rebuilt_nodes new)
        \<and> finished_nodes s \<subseteq>\<^sub>m finished_nodes s'
        \<and> (\<forall>x \<in> set (rebuilt_nodes new). \<exists>f \<in> set fr. rank x \<le> rank f)
        \<and> (\<forall>e \<in> set new. explained m ins rt ms (finished_nodes s') e))"

definition rec_ok ::
  "model \<Rightarrow> tensor list \<Rightarrow> substitution \<Rightarrow> mask option list \<Rightarrow> (lid \<times> nat \<Rightarrow> nat) \<Rightarrow> nat \<Rightarrow> bool" where
  "rec_ok m ins rt ms rank n =
     (\<forall>l i s r s'. rebuild_rec n m ins rt ms l i s = (Inr r, s') \<longrightarrow>
        grows m ins rt ms rank [(l, i)] s s'
        \<and> resolve m ins rt ms (finished_nodes s') (l, i) = Some r)"

definition list_ok ::
  "model \<Rightarrow> tensor list \<Rightarrow> substitution \<Rightarrow> mask option list \<Rightarrow> (lid \<times> nat \<Rightarrow> nat) \<Rightarrow> nat \<Rightarrow> bool" where
  "list_ok m ins rt ms rank n =
     (\<forall>fr s rs s'. rebuild_list n m ins rt ms fr s = (Inr rs, s') \<longrightarrow>
        length rs = length fr \<and> grows m ins rt ms rank fr s s'
        \<and> (\<forall>k < length fr. resolve m ins rt ms (finished_nodes s') (fr ! k) = Some (rs ! k)))"

section \<open>Properties of the array operations\<close>

lemma norm_indices_valid:
  "\<forall>i \<in> set idx. 0 \<le> i \<and> i < int d \<Longrightarrow> norm_indices d idx = Some (map nat idx)"
  unfolding norm_indices_def by (induction idx) (auto simp: norm_index_def)

lemma length_filter_notin:
  assumes "set js \<subseteq> {..<d}"
  shows "length (filter (\<lambda>j. j \<notin> set js) [0..<d]) = d - card (set js)"
proof -
  have "length (filter (\<lambda>j. j \<notin> set js) [0..<d]) = card {j. j < d \<and> j \<notin> set js}"
    by (simp add: distinct_length_filter) (rule arg_cong[where f=card], auto)
  also have "{j. j < d \<and> j \<notin> set js} = {..<d} - set js" by auto
  also have "card ({..<d} - set js) = d - card (set js)"
    using assms by (simp add: card_Diff_subset)
  finally show ?thesis .
qed

lemma card_set_map_nat:
  assumes "\<forall>i \<in> set idx. (0::int) \<le> i"
  shows "card (set (map nat idx)) = card (set idx)"
proof -
  have "inj_on nat (set idx)" using assms by (auto simp: inj_on_def) (metis nat_eq_iff2)
  then show ?thesis by (simp add: card_image)
qed

lemma card_lt_length: "\<not> distinct xs \<Longrightarrow> card (set xs) < length xs"
  using card_distinct card_length le_neq_implies_less by blast

lemma np_delete_valid:
  assumes "shape w \<noteq> []" "\<forall>i \<in> set idx. 0 \<le> i \<and> i < int (last (shape w))"
  shows "\<exists>w'. np_delete w idx = Inr w'
           \<and> shape w' = butlast (shape w) @ [last (shape w) - card (set idx)]"
proof -
  have s: "set (map nat idx) \<subseteq> {..<last (shape w)}" using assms(2) by auto
  show ?thesis
    using assms norm_indices_valid[OF assms(2)] length_filter_notin[OF s] card_set_map_nat[of idx]
    by (simp add: np_delete_def Let_def)
qed

lemma sequence_err_all:
  "\<forall>r \<in> set rs. \<exists>x. r = Inr x \<and> P x \<Longrightarrow>
   \<exists>xs. sequence_err rs = Inr xs \<and> length xs = length rs \<and> (\<forall>x \<in> set xs. P x)"
proof (induction rs)
  case Nil then show ?case by simp
next
  case (Cons r rs)
  then obtain x where "r = Inr x" "P x" by auto
  moreover obtain xs where "sequence_err rs = Inr xs" "length xs = length rs" "\<forall>x \<in> set xs. P x"
    using Cons by auto
  ultimately show ?case by simp
qed

lemma concat_chunks_take:
  "n * s \<le> length xs \<Longrightarrow> concat (map (\<lambda>r. take s (drop (r * s) xs)) [0..<n]) = take (n * s) xs"
proof (induction n)
  case 0 then show ?case by simp
next
  case (Suc n)
  then have "concat (map (\<lambda>r. take s (drop (r * s) xs)) [0..<n]) = take (n * s) xs" by simp
  moreover have "take (n * s + s) xs = take (n * s) xs @ take s (drop (n * s) xs)"
    by (rule take_add)
  ultimately show ?case by (simp add: add.commute)
qed

lemma np_where0_ones: "np_where0 (np_ones [n]) = Inr [0..<n]"
proof -
  have "filter snd (zip [0..<n] (replicate n True)) = zip [0..<n] (replicate n True)"
    by (rule filter_True) (auto dest: set_zip_rightD)
  moreover have "map (\<lambda>(k, b). k) (zip [0..<n] (replicate n True)) = [0..<n]"
  proof -
    have "(\<lambda>(k::nat, b::bool). k) = fst" by auto
    then show ?thesis by simp
  qed
  ultimately show ?thesis
    by (simp add: np_where0_def np_ones_def enumerate_eq_zip)
qed

lemma take_rows_all:
  assumes "shape w = [n, u]" "length (data w) = n * u"
  shows "take_rows w [0..<n] = Inr w"
proof -
  have "concat (map (\<lambda>r. take u (drop (r * u) (data w))) [0..<n]) = data w"
    using concat_chunks_take[of n u "data w"] assms(2) by simp
  then show ?thesis using assms(1) by (cases w) (simp add: take_rows_def)
qed

section \<open>Properties of the mask propagator\<close>

lemma dense_outbound:
  assumes "class_name l = ''Dense''" "\<not> (\<forall>m \<in> set ms. m = None)"
    "apply_delete_mask l ms = Inr (l', om)"
  shows "\<exists>sh. output_shape l = Some sh \<and> om = Some (np_ones sh)"
  using assms
  by (auto simp: apply_delete_mask_def Let_def
           split: list.splits sum.splits option.splits if_splits)

lemma dense_all_true:
  assumes "class_name d = ''Dense''" "weights d = w0 # ws" "shape w0 = [n, u]"
    "length (data w0) = n * u" "output_shape d = Some osh"
  shows "apply_delete_mask d [Some (np_ones [n])] = Inr (from_config d, Some (np_ones osh))"
proof -
  have "d\<lparr>weights := w0 # ws\<rparr> = d" using assms(2) by simp
  then have "from_config (d\<lparr>weights := w0 # ws\<rparr>) = from_config d" by simp
  then show ?thesis
    using assms take_rows_all[OF assms(3,4)]
    by (simp add: apply_delete_mask_def extract_if_single_element_def np_asarray_def np_where0_ones)
qed

lemma dense_example_masked:
  "apply_delete_mask dense_example [Some (NDArray [2] [True, False])] =
     Inr (dense_example\<lparr>weights := [NDArray [1, 3] [1, 2, 3], NDArray [3] [7, 8, 9]],
                         output_shape := None\<rparr>,
          Some (NDArray [3] [True, True, True]))"
  by (simp add: apply_delete_mask_def dense_example_def extract_if_single_element_def
      np_asarray_def np_where0_def take_rows_def np_ones_def from_config_def enumerate_eq_zip
      upt_rec numeral_3_eq_3)

text \<open>
  C1, as stated: a Dense layer that receives a non-absent inbound mask hands on an absent
  outbound mask. It fails on \<open>dense_example\<close> with the mask \<open>[True, False]\<close>: the outbound
  mask is the array \<open>[True, True, True]\<close>, not \<open>None\<close>.
\<close>

theorem dense_outbound_mask_not_absent:
  "class_name dense_example = ''Dense''
   \<and> apply_delete_mask dense_example [Some (NDArray [2] [True, False])] =
       Inr (dense_example\<lparr>weights := [NDArray [1, 3] [1, 2, 3], NDArray [3] [7, 8, 9]],
                           output_shape := None\<rparr>,
            Some (NDArray [3] [True, True, True]))
   \<and> Some (NDArray [3] [True, True, True]) \<noteq> (None :: mask option)"
  using dense_example_masked by (simp add: dense_example_def)

text \<open>
  C1, amended: whenever the mask propagator succeeds on a Dense layer with some non-absent
  inbound mask, the outbound mask is present and is \<open>np.ones\<close> of the layer's output shape,
  every entry true. A Dense layer directly downstream, whose well-formed kernel has one row
  per entry of that mask, receives this present mask, keeps every kernel row, is rebuilt from
  its own unchanged configuration and weights, and again hands on an all-true mask.
\<close>

theorem dense_outbound_all_true:
  assumes "class_name l = ''Dense''"
    and "\<not> (\<forall>m \<in> set ms. m = None)"
    and "apply_delete_mask l ms = Inr (l', om)"
  shows "\<exists>sh. output_shape l = Some sh \<and> om = Some (np_ones sh)
           \<and> (\<forall>b \<in> set (data (np_ones sh)). b)
           \<and> (\<forall>d w0 ws n u osh.
                 class_name d = ''Dense'' \<and> weights d = w0 # ws \<and> sh = [n] \<and> shape w0 = [n, u]
                 \<and> length (data w0) = n * u \<and> output_shape d = Some osh
                 \<longrightarrow> apply_delete_mask d [om] = Inr (from_config d, Some (np_ones osh))
                     \<and> weights (from_config d) = weights d)"
proof -
  from dense_outbound[OF assms] obtain sh where sh: "output_shape l = Some sh" "om = Some (np_ones sh)"
    by blast
  have "\<forall>b \<in> set (data (np_ones sh)). b" by (simp add: np_ones_def)
  moreover have "\<forall>d w0 ws n u osh.
      class_name d = ''Dense'' \<and> weights d = w0 # ws \<and> sh = [n] \<and> shape w0 = [n, u]
      \<and> length (data w0) = n * u \<and> output_shape d = Some osh
      \<longrightarrow> apply_delete_mask d [om] = Inr (from_config d, Some (np_ones osh))
          \<and> weights (from_config d) = weights d"
    using sh(2) dense_all_true by (auto simp: from_config_def)
  ultimately show ?thesis using sh by blast
qed

theorem dense_outbound_all_true_witness:
  "apply_delete_mask dense_example [Some (NDArray [2] [True, False])] =
     Inr (dense_example\<lparr>weights := [NDArray [1, 3] [1, 2, 3], NDArray [3] [7, 8, 9]],
                         output_shape := None\<rparr>,
          Some (np_ones [3]))
   \<and> apply_delete_mask dense_next [Some (np_ones [3])] = Inr (from_config dense_next, Some (np_ones [2]))
   \<and> weights (from_config dense_next) = weights dense_next"
proof -
  have c: "class_name dense_example = ''Dense''" by (simp add: dense_example_def)
  have n: "\<not> (\<forall>m \<in> set [Some (NDArray [2] [True, False])]. m = None)" by simp
  from dense_outbound_all_true [OF c n dense_example_masked]
  have om: "Some (NDArray [3] [True, True, True]) = Some (np_ones [3])"
    and down: "\<And>d w0 ws n u osh.
       class_name d = ''Dense'' \<Longrightarrow> weights d = w0 # ws \<Longrightarrow> [3] = [n] \<Longrightarrow> shape w0 = [n, u]
       \<Longrightarrow> length (data w0) = n * u \<Longrightarrow> output_shape d = Some osh
       \<Longrightarrow> apply_delete_mask d [Some (NDArray [3] [True, True, True])]
             = Inr (from_config d, Some (np_ones osh))
           \<and> weights (from_config d) = weights d"
    by (auto simp: dense_example_def)
  have "apply_delete_mask dense_next [Some (NDArray [3] [True, True, True])]
          = Inr (from_config dense_next, Some (np_ones [2]))
        \<and> weights (from_config dense_next) = weights dense_next"
    by (rule down[where ?w0.0 = "NDArray [3, 2] [10, 11, 12, 13, 14, 15]"
                    and ws = "[NDArray [2] [16, 17]]" and n = 3 and u = 2])
       (simp_all add: dense_next_def)
  with om dense_example_masked show ?thesis by simp
qed

text \<open>
  C9: when the mask propagator applies a non-absent inbound mask to a Dense layer, the
  rebuilt layer's first weight tensor is a selection of first-axis slices (rows) of the old
  kernel, and every other weight tensor, the bias included, is carried over unchanged.
\<close>

theorem dense_mask_trims_kernel_only:
  assumes "class_name l = ''Dense''"
    and "\<not> (\<forall>m \<in> set ms. m = None)"
    and "apply_delete_mask l ms = Inr (l', om)"
  shows "weights l \<noteq> [] \<and> weights l' \<noteq> [] \<and> tl (weights l') = tl (weights l)
     \<and> (\<exists>rows. take_rows (hd (weights l)) rows = Inr (hd (weights l')))"
  using assms
  by (auto simp: apply_delete_mask_def Let_def from_config_def
           split: list.splits sum.splits option.splits if_splits)

theorem dense_mask_trims_kernel_only_witness:
  "tl (weights (dense_example\<lparr>weights := [NDArray [1, 3] [1, 2, 3], NDArray [3] [7, 8, 9]],
                               output_shape := None\<rparr>)) = [NDArray [3] [7, 8, 9]]
   \<and> tl (weights dense_example) = [NDArray [3] [7, 8, 9]]
   \<and> (\<exists>rows. take_rows (NDArray [2, 3] [1, 2, 3, 4, 5, 6 :: int]) rows
                = Inr (NDArray [1, 3] [1, 2, 3]))"
proof -
  have c: "class_name dense_example = ''Dense''" by (simp add: dense_example_def)
  have n: "\<not> (\<forall>m \<in> set [Some (NDArray [2] [True, False])]. m = None)" by simp
  show ?thesis
    using dense_mask_trims_kernel_only [OF c n dense_example_masked]
    by (simp add: dense_example_def)
qed

section \<open>Properties of channel deletion\<close>

lemma delete_channel_weights_ok:
  assumes c: "channels l = Some n"
    and v: "\<forall>i \<in> set idx. 0 \<le> i \<and> i < n"
    and w: "\<forall>w \<in> set (weights l). shape w \<noteq> [] \<and> int (last (shape w)) = n"
  shows "\<exists>l'. delete_channel_weights l idx = Inr l'
           \<and> channels l' = Some (n - int (length idx))
           \<and> length (weights l') = length (weights l)
           \<and> (\<forall>w' \<in> set (weights l'). shape w' \<noteq> []
                  \<and> int (last (shape w')) = n - int (card (set idx)))"
proof -
  let ?P = "\<lambda>w'::weight. shape w' \<noteq> [] \<and> int (last (shape w')) = n - int (card (set idx))"
  have le: "0 \<le> n \<Longrightarrow> int (card (set idx)) \<le> n"
  proof -
    assume "0 \<le> n"
    have "set idx \<subseteq> {0..<n}" using v by auto
    then have "card (set idx) \<le> card {0..<n}" by (intro card_mono) auto
    then show ?thesis using \<open>0 \<le> n\<close> by simp
  qed
  have "\<forall>r \<in> set (map (\<lambda>w. np_delete w idx) (weights l)). \<exists>x. r = Inr x \<and> ?P x"
  proof
    fix r assume "r \<in> set (map (\<lambda>w. np_delete w idx) (weights l))"
    then obtain x where x: "x \<in> set (weights l)" "r = np_delete x idx" by auto
    with w have sx: "shape x \<noteq> []" "int (last (shape x)) = n" by auto
    with v have "\<forall>i \<in> set idx. 0 \<le> i \<and> i < int (last (shape x))" by simp
    from np_delete_valid[OF sx(1) this] obtain w' where
      "np_delete x idx = Inr w'" "shape w' = butlast (shape x) @ [last (shape x) - card (set idx)]"
      by blast
    moreover have "int (last (shape x) - card (set idx)) = n - int (card (set idx))"
      using sx(2) le by linarith
    ultimately show "\<exists>x. r = Inr x \<and> ?P x" using x(2) by simp
  qed
  from sequence_err_all[OF this] obtain ws where ws:
    "sequence_err (map (\<lambda>w. np_delete w idx) (weights l)) = Inr ws"
    "length ws = length (weights l)" "\<forall>x \<in> set ws. ?P x" by auto
  have nb: "\<not> (\<exists>i \<in> set idx. i + 1 > n)" using v by auto
  show ?thesis
  proof (cases "units l")
    case (Some u)
    with c have "u = n" by (simp add: channels_def)
    with Some ws nb show ?thesis
      by (simp add: delete_channel_weights_def channels_def from_config_def)
  next
    case None
    with c have "filters l = Some n" by (simp add: channels_def)
    with None ws nb show ?thesis
      by (simp add: delete_channel_weights_def channels_def from_config_def)
  qed
qed

text \<open>
  C8: when the list of channel indices holds a duplicate (every entry a valid index, and
  every weight tensor's last axis as long as the declared channel count),
  \<open>_delete_channel_weights\<close> returns a layer whose declared channel count went down by the
  length of the list, duplicates counted, while the last axis of each weight tensor went
  down by the number of distinct indices only; so the two disagree on every weight tensor.
\<close>

theorem delete_channel_weights_duplicates:
  assumes c: "channels l = Some n"
    and v: "\<forall>i \<in> set idx. 0 \<le> i \<and> i < n"
    and w: "\<forall>w \<in> set (weights l). shape w \<noteq> [] \<and> int (last (shape w)) = n"
    and d: "\<not> distinct idx"
  shows "\<exists>l'. delete_channel_weights l idx = Inr l'
           \<and> channels l' = Some (n - int (length idx))
           \<and> length (weights l') = length (weights l)
           \<and> (\<forall>w' \<in> set (weights l'). int (last (shape w')) = n - int (card (set idx))
                   \<and> Some (int (last (shape w'))) \<noteq> channels l')"
proof -
  from delete_channel_weights_ok[OF c v w] obtain l' where l':
    "delete_channel_weights l idx = Inr l'" "channels l' = Some (n - int (length idx))"
    "length (weights l') = length (weights l)"
    "\<forall>w' \<in> set (weights l'). shape w' \<noteq> [] \<and> int (last (shape w')) = n - int (card (set idx))"
    by blast
  have "card (set idx) < length idx" using d by (rule card_lt_length)
  with l' show ?thesis by auto
qed

theorem delete_channel_weights_duplicates_witness:
  "\<exists>l'. delete_channel_weights dense_example [1, 1] = Inr l'
      \<and> channels l' = Some 1
      \<and> length (weights l') = length (weights dense_example)
      \<and> (\<forall>w' \<in> set (weights l'). int (last (shape w')) = 2
              \<and> Some (int (last (shape w'))) \<noteq> channels l')"
proof -
  have c: "channels dense_example = Some 3" by (simp add: channels_def dense_example_def)
  have v: "\<forall>i \<in> set [1, 1::int]. 0 \<le> i \<and> i < 3" by simp
  have w: "\<forall>w \<in> set (weights dense_example). shape w \<noteq> [] \<and> int (last (shape w)) = 3"
    by (simp add: dense_example_def)
  have d: "\<not> distinct [1, 1::int]" by simp
  show ?thesis
    using delete_channel_weights_duplicates [OF c v w d] by simp
qed

section \<open>Properties of the subgraph rebuilder\<close>

text \<open>
  C2: for a node whose current output tensor is a key of the substitution map,
  \<open>_rebuild_rec\<close> returns the mapped pair and leaves the state as it was, whatever the cache
  of finished nodes holds and whether or not the tensor is among the model inputs: the
  substitution is looked up before both.
\<close>

theorem substitution_first:
  assumes "node_index < length (inbound_nodes m l)"
    and "replace_tensors (output_tensor (inbound_nodes m l ! node_index)) = Some r"
  shows "rebuild_rec (Suc n) m model_inputs replace_tensors masks l node_index s = (Inr r, s)"
  using assms by (simp add: Let_def)

theorem substitution_first_witness:
  "rebuild_rec 1 chain_model [Orig 0] [Orig 0 \<mapsto> (Orig 7, None)] [Some (np_ones [2])] 0 0
      \<lparr>finished_nodes = [(0, 0) \<mapsto> (Orig 9, None)], trace = []\<rparr>
    = (Inr (Orig 7, None), \<lparr>finished_nodes = [(0, 0) \<mapsto> (Orig 9, None)], trace = []\<rparr>)
   \<and> Orig 0 \<in> set (inputs chain_model)
   \<and> output_tensor (inbound_nodes chain_model 0 ! 0) = Orig 0"
proof -
  have a: "0 < length (inbound_nodes chain_model 0)" by (simp add: chain_model_def)
  have b: "[Orig 0 \<mapsto> (Orig 7, None)] (output_tensor (inbound_nodes chain_model 0 ! 0))
             = Some (Orig 7, None)" by (simp add: chain_model_def)
  show ?thesis
    using substitution_first [where m = chain_model and l = 0 and node_index = 0
        and replace_tensors = "[Orig 0 \<mapsto> (Orig 7, None)]" and r = "(Orig 7, None)" and n = 0
        and model_inputs = "[Orig 0]" and masks = "[Some (np_ones [2])]"
        and s = "\<lparr>finished_nodes = [(0, 0) \<mapsto> (Orig 9, None)], trace = []\<rparr>", OF a b]
    by (simp add: chain_model_def)
qed

lemma diamond_frontier:
  "rebuild_submodel 10 diamond_model (inputs diamond_model)
      (inbound_layers (inbound_nodes diamond_model 4 ! 0))
      (node_indices (inbound_nodes diamond_model 4 ! 0)) Map.empty [] empty_state
    = (Inr ([tensor_b, tensor_c], [None, None]), diamond_rebuilt)"
  by (simp add: rebuild_submodel_def diamond_model_def empty_state_def numeral_nat
        apply_delete_mask_def call_layer_def weights_fit_def plain_layer_def
        extract_if_single_element_def Let_def
        diamond_rebuilt_def tensor_a_def tensor_b_def tensor_c_def)

lemma diamond_ranked: "ranked diamond_model fst"
  by (auto simp: ranked_def diamond_model_def split: if_splits)

lemma rebuilt_nodes_append: "rebuilt_nodes (a @ b) = rebuilt_nodes a @ rebuilt_nodes b"
  by (induction a rule: rebuilt_nodes.induct) auto

lemma rebuilt_nodes_event:
  "x \<in> set (rebuilt_nodes new) \<Longrightarrow> \<exists>nl inps. Rebuilt x nl inps \<in> set new"
  by (induction new rule: rebuilt_nodes.induct) auto

lemma map_le_Some: "f \<subseteq>\<^sub>m g \<Longrightarrow> f a = Some b \<Longrightarrow> g a = Some b"
  by (metis domI map_le_def)

lemma resolve_mono:
  assumes le: "c \<subseteq>\<^sub>m c'"
    and fresh: "\<forall>x \<in> dom c' - dom c. needs_rebuild m ins rt x"
    and r: "resolve m ins rt ms c nd = Some r"
  shows "resolve m ins rt ms c' nd = Some r"
proof (cases "c nd")
  case (Some r0)
  from map_le_Some[OF le Some] have "c' nd = Some r0" .
  with Some r show ?thesis by (auto simp: resolve_def Let_def split: option.splits)
next
  case None
  show ?thesis
  proof (cases "c' nd")
    case None
    with \<open>c nd = None\<close> r show ?thesis
      by (auto simp: resolve_def Let_def split: option.splits)
  next
    case (Some r1)
    with \<open>c nd = None\<close> fresh have "needs_rebuild m ins rt nd" by auto
    with \<open>c nd = None\<close> r show ?thesis
      by (auto simp: resolve_def needs_rebuild_def Let_def split: option.splits)
  qed
qed

lemma explained_mono:
  assumes le: "c \<subseteq>\<^sub>m c'"
    and fresh: "\<forall>x \<in> dom c' - dom c. needs_rebuild m ins rt x"
    and ex: "explained m ins rt ms c e"
  shows "explained m ins rt ms c' e"
proof -
  from ex obtain nd nl inps where e: "e = Rebuilt nd nl inps"
    and er: "explained_rebuild m ins rt ms c nd nl inps"
    by (cases e) (auto simp: explained_def)
  from er have all: "\<forall>x \<in> set (edges m nd). resolve m ins rt ms c x \<noteq> None"
    by (simp add: explained_rebuild_def)
  have same: "\<forall>x \<in> set (edges m nd). resolve m ins rt ms c' x = resolve m ins rt ms c x"
  proof
    fix x assume "x \<in> set (edges m nd)"
    with all obtain r where "resolve m ins rt ms c x = Some r" by auto
    with resolve_mono[OF le fresh this] show "resolve m ins rt ms c' x = resolve m ins rt ms c x"
      by simp
  qed
  then have m1: "map (\<lambda>e. fst (the (resolve m ins rt ms c' e))) (edges m nd)
                = map (\<lambda>e. fst (the (resolve m ins rt ms c e))) (edges m nd)"
    and m2: "map (\<lambda>e. snd (the (resolve m ins rt ms c' e))) (edges m nd)
                = map (\<lambda>e. snd (the (resolve m ins rt ms c e))) (edges m nd)"
    by simp_all
  from er have cs: "case apply_delete_mask (layer_at m (fst nd))
                 (map (\<lambda>e. snd (the (resolve m ins rt ms c e))) (edges m nd)) of
            Inl err \<Rightarrow> False
          | Inr (nl', om) \<Rightarrow>
              nl' = nl \<and> (case call_layer nl inps of
                            Inl err \<Rightarrow> False
                          | Inr out \<Rightarrow> c nd = Some (out, om))"
    by (simp add: explained_rebuild_def)
  then obtain om where
    a: "apply_delete_mask (layer_at m (fst nd))
          (map (\<lambda>e. snd (the (resolve m ins rt ms c e))) (edges m nd)) = Inr (nl, om)"
    and cs2: "case call_layer nl inps of Inl err \<Rightarrow> False | Inr out \<Rightarrow> c nd = Some (out, om)"
    by (cases "apply_delete_mask (layer_at m (fst nd))
                 (map (\<lambda>e. snd (the (resolve m ins rt ms c e))) (edges m nd))") auto
  then obtain out where b: "call_layer nl inps = Inr out" and cn: "c nd = Some (out, om)"
    by (cases "call_layer nl inps") auto
  from map_le_Some[OF le cn] have "c' nd = Some (out, om)" .
  moreover have "\<forall>x \<in> set (edges m nd). resolve m ins rt ms c' x \<noteq> None"
    using all same by simp
  moreover from er have "snd nd < length (inbound_nodes m (fst nd))" "needs_rebuild m ins rt nd"
    "edges m nd \<noteq> []" "inps = map (\<lambda>e. fst (the (resolve m ins rt ms c e))) (edges m nd)"
    by (simp_all add: explained_rebuild_def)
  ultimately have "explained_rebuild m ins rt ms c' nd nl inps"
    unfolding explained_rebuild_def m1 m2 using a b by simp
  with e show ?thesis by (simp add: explained_def)
qed

lemma grows_refl: "grows m ins rt ms rank fr s s"
  by (auto simp: grows_def)

lemma grows_fresh:
  assumes "grows m ins rt ms rank fr s s'"
  shows "finished_nodes s \<subseteq>\<^sub>m finished_nodes s'
       \<and> (\<forall>x \<in> dom (finished_nodes s') - dom (finished_nodes s). needs_rebuild m ins rt x)"
proof -
  from assms obtain new where n:
    "dom (finished_nodes s') = dom (finished_nodes s) \<union> set (rebuilt_nodes new)"
    "finished_nodes s \<subseteq>\<^sub>m finished_nodes s'"
    "\<forall>e \<in> set new. explained m ins rt ms (finished_nodes s') e"
    unfolding grows_def by blast
  have "\<forall>x \<in> dom (finished_nodes s') - dom (finished_nodes s). needs_rebuild m ins rt x"
  proof
    fix x assume "x \<in> dom (finished_nodes s') - dom (finished_nodes s)"
    with n(1) have "x \<in> set (rebuilt_nodes new)" by auto
    from rebuilt_nodes_event[OF this] obtain nl inps where "Rebuilt x nl inps \<in> set new" by blast
    with n(3) have "explained m ins rt ms (finished_nodes s') (Rebuilt x nl inps)" by blast
    then show "needs_rebuild m ins rt x" by (simp add: explained_def explained_rebuild_def)
  qed
  with n(2) show ?thesis by simp
qed

lemma grows_resolve:
  assumes "grows m ins rt ms rank fr s s'" "resolve m ins rt ms (finished_nodes s) nd = Some r"
  shows "resolve m ins rt ms (finished_nodes s') nd = Some r"
  using grows_fresh[OF assms(1)] resolve_mono assms(2) by blast

lemma grows_trans:
  assumes "grows m ins rt ms rank fr1 s s1" "grows m ins rt ms rank fr2 s1 s2"
  shows "grows m ins rt ms rank (fr1 @ fr2) s s2"
proof -
  from assms(1) obtain n1 where n1: "trace s1 = trace s @ n1"
    "length (rebuilt_nodes n1) = length n1" "distinct (rebuilt_nodes n1)"
    "set (rebuilt_nodes n1) \<inter> dom (finished_nodes s) = {}"
    "dom (finished_nodes s1) = dom (finished_nodes s) \<union> set (rebuilt_nodes n1)"
    "finished_nodes s \<subseteq>\<^sub>m finished_nodes s1"
    "\<forall>x \<in> set (rebuilt_nodes n1). \<exists>f \<in> set fr1. rank x \<le> rank f"
    "\<forall>e \<in> set n1. explained m ins rt ms (finished_nodes s1) e"
    unfolding grows_def by blast
  from assms(2) obtain n2 where n2: "trace s2 = trace s1 @ n2"
    "length (rebuilt_nodes n2) = length n2" "distinct (rebuilt_nodes n2)"
    "set (rebuilt_nodes n2) \<inter> dom (finished_nodes s1) = {}"
    "dom (finished_nodes s2) = dom (finished_nodes s1) \<union> set (rebuilt_nodes n2)"
    "finished_nodes s1 \<subseteq>\<^sub>m finished_nodes s2"
    "\<forall>x \<in> set (rebuilt_nodes n2). \<exists>f \<in> set fr2. rank x \<le> rank f"
    "\<forall>e \<in> set n2. explained m ins rt ms (finished_nodes s2) e"
    unfolding grows_def by blast
  from grows_fresh[OF assms(2)] have fr:
    "\<forall>x \<in> dom (finished_nodes s2) - dom (finished_nodes s1). needs_rebuild m ins rt x" by simp
  have a: "trace s2 = trace s @ (n1 @ n2)" using n1(1) n2(1) by simp
  have b: "length (rebuilt_nodes (n1 @ n2)) = length (n1 @ n2)"
    using n1(2) n2(2) by (simp add: rebuilt_nodes_append)
  have c: "distinct (rebuilt_nodes (n1 @ n2))"
    using n1(3,5) n2(3,4) by (auto simp: rebuilt_nodes_append)
  have d: "set (rebuilt_nodes (n1 @ n2)) \<inter> dom (finished_nodes s) = {}"
    using n1(4,5) n2(4) by (auto simp: rebuilt_nodes_append)
  have e: "dom (finished_nodes s2) = dom (finished_nodes s) \<union> set (rebuilt_nodes (n1 @ n2))"
    using n1(5) n2(5) by (auto simp: rebuilt_nodes_append)
  have f: "finished_nodes s \<subseteq>\<^sub>m finished_nodes s2"
    using n1(6) n2(6) by (rule map_le_trans)
  have g: "\<forall>x \<in> set (rebuilt_nodes (n1 @ n2)). \<exists>f \<in> set (fr1 @ fr2). rank x \<le> rank f"
    using n1(7) n2(7) by (auto simp: rebuilt_nodes_append)
  have h: "\<forall>e \<in> set (n1 @ n2). explained m ins rt ms (finished_nodes s2) e"
    using n1(8) n2(8) explained_mono[OF n2(6) fr] by auto
  show ?thesis unfolding grows_def using a b c d e f g h by blast
qed

lemma resolved_list:
  assumes "length rs = length es" "\<forall>k < length es. f (es ! k) = Some (rs ! k)"
  shows "map f es = map Some rs"
  using assms by (intro nth_equalityI) simp_all

lemma list_from_rec:
  assumes "rec_ok m ins rt ms rank n"
  shows "list_ok m ins rt ms rank n"
  unfolding list_ok_def
proof (intro allI impI)
  fix fr s rs s'
  assume "rebuild_list n m ins rt ms fr s = (Inr rs, s')"
  then show "length rs = length fr \<and> grows m ins rt ms rank fr s s'
        \<and> (\<forall>k < length fr. resolve m ins rt ms (finished_nodes s') (fr ! k) = Some (rs ! k))"
  proof (induction fr arbitrary: s rs)
    case Nil
    then show ?case by (simp add: grows_refl)
  next
    case (Cons a fr)
    obtain l i where a: "a = (l, i)" by (cases a)
    from Cons.prems obtain r s1 rs' where
      r: "rebuild_rec n m ins rt ms l i s = (Inr r, s1)"
      and l: "rebuild_list n m ins rt ms fr s1 = (Inr rs', s')" and rs: "rs = r # rs'"
      unfolding a by (auto split: prod.splits sum.splits)
    from assms r have g1: "grows m ins rt ms rank [(l, i)] s s1"
      and c1: "resolve m ins rt ms (finished_nodes s1) (l, i) = Some r"
      unfolding rec_ok_def by blast+
    from Cons.IH[OF l] have len: "length rs' = length fr"
      and g2: "grows m ins rt ms rank fr s1 s'"
      and c2: "\<forall>k < length fr. resolve m ins rt ms (finished_nodes s') (fr ! k) = Some (rs' ! k)"
      by blast+
    have g: "grows m ins rt ms rank (a # fr) s s'" using grows_trans[OF g1 g2] a by simp
    have c: "\<forall>k < length (a # fr). resolve m ins rt ms (finished_nodes s') ((a # fr) ! k) = Some (rs ! k)"
    proof (intro allI impI)
      fix k assume k: "k < length (a # fr)"
      show "resolve m ins rt ms (finished_nodes s') ((a # fr) ! k) = Some (rs ! k)"
      proof (cases k)
        case 0
        from grows_resolve[OF g2 c1] show ?thesis using 0 a rs by simp
      next
        case (Suc k')
        with k c2 rs show ?thesis by simp
      qed
    qed
    from len rs g c show ?case by simp
  qed
qed

lemma rec_zero: "rec_ok m ins rt ms rank 0"
  by (simp add: rec_ok_def)

lemma rec_step:
  assumes rk: "ranked m rank" and lo: "list_ok m ins rt ms rank n"
  shows "rec_ok m ins rt ms rank (Suc n)"
  unfolding rec_ok_def
proof (intro allI impI)
  fix l i s r s'
  assume run: "rebuild_rec (Suc n) m ins rt ms l i s = (Inr r, s')"
  let ?node = "inbound_nodes m l ! i"
  let ?t = "output_tensor ?node"
  let ?edges = "zip (inbound_layers ?node) (node_indices ?node)"
  have ed: "edges m (l, i) = ?edges" by (simp add: edges_def)
  from run have i: "i < length (inbound_nodes m l)" by (auto split: if_splits)
  show "grows m ins rt ms rank [(l, i)] s s'
        \<and> resolve m ins rt ms (finished_nodes s') (l, i) = Some r"
  proof (cases "rt ?t")
    case (Some r0)
    with run i have "s' = s" "r = r0" by (simp_all add: Let_def)
    with Some show ?thesis by (simp add: grows_refl resolve_def)
  next
    case None
    note rtN = None
    show ?thesis
    proof (cases "finished_nodes s (l, i)")
      case (Some r0)
      with run i rtN have "s' = s" "r = r0" by (simp_all add: Let_def)
      with Some rtN show ?thesis by (simp add: grows_refl resolve_def)
    next
      case None
      note fnN = None
      show ?thesis
      proof (cases "index_of ins ?t")
        case (Some j)
        with run i rtN fnN have "s' = s" "j < length ms" "r = (?t, ms ! j)"
          by (auto simp: Let_def split: if_splits)
        with Some rtN fnN show ?thesis by (simp add: grows_refl resolve_def)
      next
        case None
        note ixN = None
        with run i rtN fnN obtain rs s1 nl om out where
          rl: "rebuild_list n m ins rt ms ?edges s = (Inr rs, s1)"
          and ne: "rs \<noteq> []"
          and ap: "apply_delete_mask (layer_at m l) (map snd rs) = Inr (nl, om)"
          and cl: "call_layer nl (map fst rs) = Inr out"
          and r: "r = (out, om)"
          and s': "s' = s1\<lparr>finished_nodes := (finished_nodes s1)((l, i) \<mapsto> r),
                           trace := trace s1 @ [Rebuilt (l, i) nl (map fst rs)]\<rparr>"
          by (auto simp: Let_def split: if_splits sum.splits prod.splits)
        have nr: "needs_rebuild m ins rt (l, i)" using rtN ixN by (simp add: needs_rebuild_def)
        from lo rl have len: "length rs = length ?edges"
          and g1: "grows m ins rt ms rank ?edges s s1"
          and res1: "\<forall>k < length ?edges. resolve m ins rt ms (finished_nodes s1) (?edges ! k) = Some (rs ! k)"
          unfolding list_ok_def by blast+
        from g1 obtain n1 where n1: "trace s1 = trace s @ n1"
          "length (rebuilt_nodes n1) = length n1" "distinct (rebuilt_nodes n1)"
          "set (rebuilt_nodes n1) \<inter> dom (finished_nodes s) = {}"
          "dom (finished_nodes s1) = dom (finished_nodes s) \<union> set (rebuilt_nodes n1)"
          "finished_nodes s \<subseteq>\<^sub>m finished_nodes s1"
          "\<forall>x \<in> set (rebuilt_nodes n1). \<exists>f \<in> set ?edges. rank x \<le> rank f"
          "\<forall>e \<in> set n1. explained m ins rt ms (finished_nodes s1) e"
          unfolding grows_def by blast
        have lt: "\<forall>x \<in> set (rebuilt_nodes n1). rank x < rank (l, i)"
        proof
          fix x assume "x \<in> set (rebuilt_nodes n1)"
          with n1(7) obtain f where f: "f \<in> set ?edges" "rank x \<le> rank f" by blast
          from rk i f(1) have "rank f < rank (l, i)" unfolding ranked_def by blast
          with f(2) show "rank x < rank (l, i)" by simp
        qed
        then have notin: "(l, i) \<notin> set (rebuilt_nodes n1)" by auto
        with fnN n1(5) have nd: "(l, i) \<notin> dom (finished_nodes s1)" by auto
        let ?c' = "(finished_nodes s1)((l, i) \<mapsto> r)"
        have c': "finished_nodes s' = ?c'" using s' by simp
        have le1: "finished_nodes s1 \<subseteq>\<^sub>m ?c'" using nd by (simp add: map_le_def)
        have fr1: "\<forall>x \<in> dom ?c' - dom (finished_nodes s1). needs_rebuild m ins rt x"
          using nr by auto
        let ?new = "n1 @ [Rebuilt (l, i) nl (map fst rs)]"
        have a: "trace s' = trace s @ ?new" using s' n1(1) by simp
        have rn: "rebuilt_nodes ?new = rebuilt_nodes n1 @ [(l, i)]"
          by (simp add: rebuilt_nodes_append)
        have b: "length (rebuilt_nodes ?new) = length ?new" using n1(2) rn by simp
        have c: "distinct (rebuilt_nodes ?new)" using n1(3) notin rn by simp
        have d: "set (rebuilt_nodes ?new) \<inter> dom (finished_nodes s) = {}"
          using n1(4) fnN rn by auto
        have e: "dom (finished_nodes s') = dom (finished_nodes s) \<union> set (rebuilt_nodes ?new)"
          using n1(5) s' rn by auto
        have f: "finished_nodes s \<subseteq>\<^sub>m finished_nodes s'"
          using map_le_trans[OF n1(6) le1] c' by simp
        have g: "\<forall>x \<in> set (rebuilt_nodes ?new). \<exists>f \<in> set [(l, i)]. rank x \<le> rank f"
          using lt rn by (auto simp: less_imp_le)
        have old: "\<forall>e \<in> set n1. explained m ins rt ms ?c' e"
          using n1(8) explained_mono[OF le1 fr1] by blast
        have rsv: "map (resolve m ins rt ms ?c') ?edges = map Some rs"
        proof (rule resolved_list[OF len])
          show "\<forall>k < length ?edges. resolve m ins rt ms ?c' (?edges ! k) = Some (rs ! k)"
            using res1 resolve_mono[OF le1 fr1] by blast
        qed
        have all: "\<forall>x \<in> set ?edges. resolve m ins rt ms ?c' x \<noteq> None"
        proof
          fix x assume "x \<in> set ?edges"
          then have "resolve m ins rt ms ?c' x \<in> set (map (resolve m ins rt ms ?c') ?edges)" by simp
          with rsv show "resolve m ins rt ms ?c' x \<noteq> None" by auto
        qed
        have "map (\<lambda>e. fst (the (resolve m ins rt ms ?c' e))) ?edges
                = map (fst \<circ> the) (map (resolve m ins rt ms ?c') ?edges)" by simp
        also have "\<dots> = map fst rs" unfolding rsv by simp
        finally have mf: "map (\<lambda>e. fst (the (resolve m ins rt ms ?c' e))) ?edges = map fst rs" .
        have "map (\<lambda>e. snd (the (resolve m ins rt ms ?c' e))) ?edges
                = map (snd \<circ> the) (map (resolve m ins rt ms ?c') ?edges)" by simp
        also have "\<dots> = map snd rs" unfolding rsv by simp
        finally have msn: "map (\<lambda>e. snd (the (resolve m ins rt ms ?c' e))) ?edges = map snd rs" .
        have ene: "?edges \<noteq> []" using ne len by auto
        have "explained_rebuild m ins rt ms ?c' (l, i) nl (map fst rs)"
          unfolding explained_rebuild_def ed
          using i nr ene all mf msn ap cl r by simp
        then have new: "explained m ins rt ms ?c' (Rebuilt (l, i) nl (map fst rs))"
          by (simp add: explained_def)
        have h: "\<forall>e \<in> set ?new. explained m ins rt ms (finished_nodes s') e"
          using old new c' by auto
        have "grows m ins rt ms rank [(l, i)] s s'"
          unfolding grows_def using a b c d e f g h by blast
        moreover have "resolve m ins rt ms (finished_nodes s') (l, i) = Some r"
          using c' rtN by (simp add: resolve_def)
        ultimately show ?thesis by simp
      qed
    qed
  qed
qed

lemma rebuild_ok:
  assumes "ranked m rank"
  shows "rec_ok m ins rt ms rank n \<and> list_ok m ins rt ms rank n"
proof (induction n)
  case 0
  show ?case using rec_zero list_from_rec[OF rec_zero] by blast
next
  case (Suc n)
  then have "rec_ok m ins rt ms rank (Suc n)" using rec_step[OF assms] by blast
  then show ?case using list_from_rec by blast
qed

text \<open>
  C3: in a graph without cycles, one successful call of \<open>rebuild_submodel\<close> adds to the
  trace only rebuild computations, no two of them for the same node and none for a node that
  was already in the cache; the cache keeps every entry it had and gains exactly the rebuilt
  nodes. Every rebuild computation is explained by the final cache: it took as inputs the
  results the final cache, the substitution or the model inputs give for the node's inbound
  nodes, and the cache holds its outcome. Every frontier output is the result its node has
  in the final state. The cache holds one pair for a node, so every consumer of a node
  reached along several paths was fed that one pair, and so was the frontier.
\<close>

theorem rebuilt_at_most_once:
  assumes rk: "ranked m rank"
    and run: "rebuild_submodel limit m ins ls is rt masks s = (Inr (outs, oms), s')"
  shows "\<exists>new ms. ms = (if masks = [] then replicate (length ins) None else masks)
           \<and> trace s' = trace s @ new
           \<and> length (rebuilt_nodes new) = length new
           \<and> distinct (rebuilt_nodes new)
           \<and> set (rebuilt_nodes new) \<inter> dom (finished_nodes s) = {}
           \<and> dom (finished_nodes s') = dom (finished_nodes s) \<union> set (rebuilt_nodes new)
           \<and> finished_nodes s \<subseteq>\<^sub>m finished_nodes s'
           \<and> (\<forall>e \<in> set new. explained m ins rt ms (finished_nodes s') e)
           \<and> length outs = length (zip ls is) \<and> length oms = length (zip ls is)
           \<and> (\<forall>k < length (zip ls is).
                  resolve m ins rt ms (finished_nodes s') (zip ls is ! k) = Some (outs ! k, oms ! k))"
proof -
  let ?ms = "if masks = [] then replicate (length ins) None else masks"
  from run obtain rs where rl: "rebuild_list limit m ins rt ?ms (zip ls is) s = (Inr rs, s')"
    and o: "outs = map fst rs" "oms = map snd rs"
    unfolding rebuild_submodel_def Let_def by (auto split: prod.splits sum.splits if_splits)
  from rebuild_ok[OF rk, of ins rt ?ms limit] rl
  have len: "length rs = length (zip ls is)" and g: "grows m ins rt ?ms rank (zip ls is) s s'"
    and c: "\<forall>k < length (zip ls is).
              resolve m ins rt ?ms (finished_nodes s') (zip ls is ! k) = Some (rs ! k)"
    unfolding list_ok_def by blast+
  have c': "\<forall>k < length (zip ls is).
              resolve m ins rt ?ms (finished_nodes s') (zip ls is ! k) = Some (outs ! k, oms ! k)"
    using c len o by simp
  have l2: "length outs = length (zip ls is)" "length oms = length (zip ls is)"
    using len o by simp_all
  from g c' l2 show ?thesis unfolding grows_def by blast
qed

theorem rebuilt_at_most_once_witness:
  "ranked diamond_model fst
   \<and> (\<exists>new. trace diamond_rebuilt = trace empty_state @ new
         \<and> length (rebuilt_nodes new) = length new
         \<and> distinct (rebuilt_nodes new)
         \<and> dom (finished_nodes diamond_rebuilt) = set (rebuilt_nodes new)
         \<and> (\<forall>e \<in> set new.
               explained diamond_model (inputs diamond_model) Map.empty [None]
                 (finished_nodes diamond_rebuilt) e)
         \<and> resolve diamond_model (inputs diamond_model) Map.empty [None]
               (finished_nodes diamond_rebuilt) (2, 0) = Some (tensor_b, None)
         \<and> resolve diamond_model (inputs diamond_model) Map.empty [None]
               (finished_nodes diamond_rebuilt) (3, 0) = Some (tensor_c, None))"
proof -
  from rebuilt_at_most_once [OF diamond_ranked diamond_frontier] obtain new ms where
    n: "ms = (if ([] :: mask option list) = [] then replicate (length (inputs diamond_model)) None
              else [])"
       "trace diamond_rebuilt = trace empty_state @ new"
       "length (rebuilt_nodes new) = length new" "distinct (rebuilt_nodes new)"
       "dom (finished_nodes diamond_rebuilt) = dom (finished_nodes empty_state) \<union> set (rebuilt_nodes new)"
       "\<forall>e \<in> set new. explained diamond_model (inputs diamond_model) Map.empty ms
                          (finished_nodes diamond_rebuilt) e"
       "\<forall>k < length (zip (inbound_layers (inbound_nodes diamond_model 4 ! 0))
                            (node_indices (inbound_nodes diamond_model 4 ! 0))).
           resolve diamond_model (inputs diamond_model) Map.empty ms (finished_nodes diamond_rebuilt)
             (zip (inbound_layers (inbound_nodes diamond_model 4 ! 0))
                  (node_indices (inbound_nodes diamond_model 4 ! 0)) ! k)
           = Some ([tensor_b, tensor_c] ! k, [None, None] ! k)"
    by blast
  have ms: "ms = [None]" using n(1) by (simp add: diamond_model_def)
  have z: "zip (inbound_layers (inbound_nodes diamond_model 4 ! 0))
               (node_indices (inbound_nodes diamond_model 4 ! 0)) = [(2, 0), (3, 0)]"
    by (simp add: diamond_model_def)
  have r0: "resolve diamond_model (inputs diamond_model) Map.empty [None]
               (finished_nodes diamond_rebuilt) (2, 0) = Some (tensor_b, None)"
    using n(7)[unfolded z ms, rule_format, of 0] by simp
  have r1: "resolve diamond_model (inputs diamond_model) Map.empty [None]
               (finished_nodes diamond_rebuilt) (3, 0) = Some (tensor_c, None)"
    using n(7)[unfolded z ms, rule_format, of 1] by simp
  have "dom (finished_nodes empty_state) = {}" by (simp add: empty_state_def)
  with n(2,3,4,5,6) r0 r1 diamond_ranked show ?thesis unfolding ms by auto
qed
section \<open>Properties of the edits\<close>

lemma delete_channel_weights_out_of_range:
  assumes "channels l = Some n" "\<exists>i \<in> set idx. n \<le> i"
  shows "delete_channel_weights l idx = Inl ChannelIndexOutOfRange"
proof -
  from assms(2) have "\<exists>i \<in> set idx. i + 1 > n" by auto
  with assms(1) show ?thesis
    by (auto simp: delete_channel_weights_def channels_def split: option.splits)
qed

text \<open>
  C6: when some requested channel index is at or above the target layer's channel count,
  \<open>delete_channels\<close> fails with \<open>ChannelIndexOutOfRange\<close>, and the state is the one it
  started from: no layer was called, nothing was copied, no model was built.
\<close>

theorem delete_channels_out_of_range:
  assumes "channels (layer_at m l) = Some n" and "\<exists>i \<in> set channel_indices. n \<le> i"
  shows "delete_channels limit m l channel_indices node_idxs copy s = (Inl ChannelIndexOutOfRange, s)"
  using delete_channel_weights_out_of_range[OF assms] by (simp add: delete_channels_def)

theorem delete_channels_out_of_range_witness:
  "delete_channels 10 chain_model 1 [10] [] Omitted empty_state = (Inl ChannelIndexOutOfRange, empty_state)"
proof -
  have a: "channels (layer_at chain_model 1) = Some 3"
    by (simp add: chain_model_def channels_def dense_example_def)
  have b: "\<exists>i \<in> set [10::int]. 3 \<le> i" by simp
  show ?thesis using delete_channels_out_of_range [OF a b] by simp
qed

text \<open>
  C10: \<open>delete_channels\<close> builds the trimmed layer and the mask before \<open>reused_core_logic\<close>
  checks that the target is a layer of the model. For a target that is not in the model and
  an index out of range the failure is \<open>ChannelIndexOutOfRange\<close>, although the check, had it
  run, fails with \<open>OperationNotFound\<close>.
\<close>

theorem absent_target_out_of_range:
  assumes "l \<notin> set (layers m)"
    and "channels (layer_at m l) = Some n" and "\<exists>i \<in> set channel_indices. n \<le> i"
  shows "delete_channels limit m l channel_indices node_idxs copy s = (Inl ChannelIndexOutOfRange, s)
       \<and> reused_core_logic limit m l f node_idxs c masks s = (Inl OperationNotFound, s)"
  using delete_channel_weights_out_of_range[OF assms(2,3)] assms(1)
  by (simp add: delete_channels_def reused_core_logic_def)

theorem absent_target_out_of_range_witness:
  "5 \<notin> set (layers chain_model)
   \<and> delete_channels 10 chain_model 5 [10] [] Omitted empty_state
        = (Inl ChannelIndexOutOfRange, empty_state)
   \<and> reused_core_logic 10 chain_model 5 delete_callback [] None [] empty_state
        = (Inl OperationNotFound, empty_state)"
proof -
  have a: "5 \<notin> set (layers chain_model)" by (simp add: chain_model_def)
  have b: "channels (layer_at chain_model 5) = Some 2"
    by (simp add: chain_model_def channels_def dense_next_def)
  have c: "\<exists>i \<in> set [10::int]. 2 \<le> i" by simp
  show ?thesis using absent_target_out_of_range [OF a b c] a by simp
qed

section \<open>The order of processing\<close>

















lemma replace_callback_quiet:
  "quiet s0 (snd (replace_callback new_layer m' l' i outs s0))"
  by (auto simp: replace_callback_def apply_layer_def get_output_at_def quiet_def Let_def
           split: if_splits sum.splits prod.splits)

lemma delete_callback_quiet:
  "quiet s0 (snd (delete_callback m' l' i outs s0))"
  by (auto simp: delete_callback_def get_output_at_def quiet_def Let_def
           split: if_splits sum.splits prod.splits)

lemma delete_inbound_weights_quiet:
  "quiet s0 (snd (delete_inbound_weights new_layer new_delete_mask m' l' i outs s0))"
  by (auto simp: delete_inbound_weights_def apply_layer_def get_output_at_def quiet_def Let_def
           split: if_splits sum.splits prod.splits)



section \<open>Multi-input targets\<close>








section \<open>The default of the isolation flag\<close>

text \<open>
  C7 says all four entry points copy the model before and after the edit when the caller
  leaves \<open>copy\<close> out. \<open>insert_layer\<close>, \<open>replace_layer\<close> and \<open>delete_layer\<close> declare
  \<open>copy=True\<close> and do; \<open>delete_channels\<close> declares \<open>copy=None\<close>, which is false, and makes no
  copy at all: leaving the flag out is the same as passing \<open>None\<close>. On the chain, deleting
  channel 1 of \<open>dense_example\<close> with the flag left out succeeds with no copy in the trace,
  where the three other edits record two.
\<close>

theorem delete_channels_default_makes_no_copy:
  "(\<forall>limit m l idx nis s.
      delete_channels limit m l idx nis Omitted s = delete_channels limit m l idx nis (Passed None) s)
   \<and> (case fst (delete_channels 10 chain_model 1 [1] [] Omitted empty_state) of
         Inr g \<Rightarrow> True | Inl e \<Rightarrow> False)
   \<and> copies (trace (snd (delete_channels 10 chain_model 1 [1] [] Omitted empty_state))) = 0
   \<and> copies (trace (snd (insert_layer 10 chain_model 2 (plain_layer ''new'' ''Activation'') []
                            Omitted empty_state))) = 2
   \<and> copies (trace (snd (replace_layer 10 chain_model 2 (plain_layer ''new'' ''Activation'') []
                            Omitted empty_state))) = 2
   \<and> copies (trace (snd (delete_layer 10 chain_model 2 [] Omitted empty_state))) = 2"
proof -
  have "\<forall>limit m l idx nis s.
      delete_channels limit m l idx nis Omitted s = delete_channels limit m l idx nis (Passed None) s"
    by (simp add: delete_channels_def arg_default_def split: sum.splits)
  moreover have "case fst (delete_channels 10 chain_model 1 [1] [] Omitted empty_state) of
         Inr g \<Rightarrow> True | Inl e \<Rightarrow> False"
    by code_simp
  moreover have "copies (trace (snd (delete_channels 10 chain_model 1 [1] [] Omitted empty_state))) = 0"
    by code_simp
  moreover have "copies (trace (snd (insert_layer 10 chain_model 2 (plain_layer ''new'' ''Activation'') []
                            Omitted empty_state))) = 2"
    by code_simp
  moreover have "copies (trace (snd (replace_layer 10 chain_model 2 (plain_layer ''new'' ''Activation'') []
                            Omitted empty_state))) = 2"
    by code_simp
  moreover have "copies (trace (snd (delete_layer 10 chain_model 2 [] Omitted empty_state))) = 2"
    by code_simp
  ultimately show ?thesis by blast
qed

end
